theory Spec2Isabelle
  imports Complex_Main "HOL-Library.Multiset" "HOL-Library.Word"
begin

section \<open>Errors, identifiers and selections\<close>

text \<open>
  Every exception the modelled code can raise is a value. The source raises a single
  class, BluepySnapError, told apart by its message; each message is a constructor.
  Exceptions of Python itself and of numpy are constructors of their own.
\<close>

datatype error =
    EitherSourceOrTarget  \<comment> \<open>BluepySnapError: Either source or target should be specified\<close>
  | MutuallyExclusive  \<comment> \<open>BluepySnapError: return_edge_count and return_edge_ids are mutually exclusive\<close>
  | InvalidIdType  \<comment> \<open>BluepySnapError: All values from a list must be of type int or CircuitEdgeId.\<close>
  | UnknownProperties "string set"  \<comment> \<open>BluepySnapError: Unknown edge properties: ...\<close>
  | NoSuchProperty string  \<comment> \<open>BluepySnapError: No such property: ...\<close>
  | AssertionError
  | AttributeError
  | IndexError
  | TypeError
  | NumpyValueError  \<comment> \<open>ValueError raised inside numpy\<close>
  | OverflowError  \<comment> \<open>OverflowError: Python int too large to convert to C long\<close>
  | NodeError string  \<comment> \<open>whatever the node population raises while resolving a group\<close>

text \<open>
  Modelled from the spec: the typed IDs of \<open>bluepysnap.circuit_ids_types\<close> and
  \<open>bluepysnap.circuit_ids\<close> (not under src/), a typed single ID carrying (population name,
  local id). An element of a list handed to \<open>ids\<close> is a plain integer of Python, of any
  size, or a CircuitEdgeId(population, id); an emitted node is a
  CircuitNodeId(population, id).
\<close>

datatype idval = PlainInt int | CircuitEdgeId string int

datatype circuit_node_id = CircuitNodeId string nat

text \<open>
  A Selection of libsonata, the external storage library: a list of half-open ranges of
  edge IDs, which \<open>flatten\<close> enumerates.
\<close>

type_synonym selection = "(nat \<times> nat) list"

definition flatten :: "selection \<Rightarrow> nat list" where
  "flatten sel = concat (map (\<lambda>(a, b). [a..<b]) sel)"

text \<open>
  \<open>libsonata.Selection(values)\<close>: consecutive values are merged into one range, starting
  from the empty range (0, 0).
\<close>

fun from_values :: "selection \<Rightarrow> nat \<times> nat \<Rightarrow> nat list \<Rightarrow> selection" where
  "from_values acc (lo, hi) [] = (if lo < hi then acc @ [(lo, hi)] else acc)"
| "from_values acc (lo, hi) (v # vs) =
     (if v = hi then from_values acc (lo, Suc hi) vs
      else from_values (if lo < hi then acc @ [(lo, hi)] else acc) (v, Suc v) vs)"

definition Selection :: "nat list \<Rightarrow> selection" where
  "Selection values = from_values [] (0, 0) values"

text \<open>
  An array of edge IDs in Python is a numpy array of 64-bit integers, a list of 64-bit
  words. The ID dtype \<open>IDS_DTYPE\<close> is int64, which reads a word as a signed number
  (\<open>sint\<close>); libsonata reads it as an unsigned number (\<open>unat\<close>). A conversion between the
  two dtypes keeps the 64 bits, so the number \<open>2 ^ 63\<close> of libsonata is the ID
  \<open>- (2 ^ 63)\<close> in Python.
\<close>

type_synonym id_array = "64 word list"

section \<open>The world: backend calls made so far, and the random source\<close>

datatype call =
    SelectAll
  | AfferentEdges "nat list"
  | EfferentEdges "nat list"
  | ConnectingEdges "nat list" "nat list"
  | SourceNodes selection
  | TargetNodes selection
  | GetAttribute string selection
  | GetDynamicsAttribute string selection

record 'g world =
  calls :: "call list"
  rng :: 'g

type_synonym ('g, 'a) io = "'g world \<Rightarrow> (error + 'a) \<times> 'g world"

definition ret :: "'a \<Rightarrow> ('g, 'a) io" where
  "ret x = (\<lambda>w. (Inr x, w))"

definition raise :: "error \<Rightarrow> ('g, 'a) io" where
  "raise e = (\<lambda>w. (Inl e, w))"

definition bind :: "('g, 'a) io \<Rightarrow> ('a \<Rightarrow> ('g, 'b) io) \<Rightarrow> ('g, 'b) io" where
  "bind m f = (\<lambda>w. case m w of (Inl e, w') \<Rightarrow> (Inl e, w') | (Inr x, w') \<Rightarrow> f x w')"

definition lift :: "error + 'a \<Rightarrow> ('g, 'a) io" where
  "lift r = (\<lambda>w. (r, w))"

text \<open>A call into the storage backend: it is logged and its value returned.\<close>

definition backend :: "call \<Rightarrow> 'a \<Rightarrow> ('g, 'a) io" where
  "backend c v = (\<lambda>w. (Inr v, w\<lparr>calls := calls w @ [c]\<rparr>))"

text \<open>
  The random source of numpy is a step function \<open>perm\<close>, a parameter: from the state of
  the source and a length n it gives an arrangement of the positions below n and the
  next state. \<open>shuffle\<close> and \<open>choice(replace=False)\<close> both draw one such arrangement. The
  source is valid when each arrangement has every position exactly once.
\<close>

type_synonym 'g perm = "'g \<Rightarrow> nat \<Rightarrow> nat list \<times> 'g"

definition valid_perm :: "'g perm \<Rightarrow> bool" where
  "valid_perm perm = (\<forall>g n. mset (fst (perm g n)) = mset [0..<n])"

definition permutation :: "'g perm \<Rightarrow> nat \<Rightarrow> ('g, nat list) io" where
  "permutation perm n = (\<lambda>w. case perm (rng w) n of (p, g') \<Rightarrow> (Inr p, w\<lparr>rng := g'\<rparr>))"

definition shuffle :: "'g perm \<Rightarrow> 'a list \<Rightarrow> ('g, 'a list) io" where
  "shuffle perm xs = bind (permutation perm (length xs)) (\<lambda>p. ret (map (\<lambda>i. xs ! i) p))"

text \<open>
  \<open>np.random.choice(a, size, replace=False)\<close>: the first \<open>size\<close> entries of an
  arrangement; a negative size and a size above the length are errors of numpy.
\<close>

definition choice :: "'g perm \<Rightarrow> 'a list \<Rightarrow> int \<Rightarrow> ('g, 'a list) io" where
  "choice perm a n =
     (if n < 0 \<or> int (length a) < n then raise NumpyValueError
      else bind (permutation perm (length a)) (\<lambda>p. ret (map (\<lambda>i. a ! i) (take (nat n) p))))"

section \<open>The edge population and its collaborators\<close>

datatype dtype = Float64 | IDS_DTYPE | ObjectDtype | Dtype string

datatype 'v cell = IdCell nat | Cell 'v

type_synonym 'v column = "dtype \<times> 'v cell list"

datatype node_group = NodeId nat | NodeIds "nat list" | NodeSet string

text \<open>
  What an EdgePopulation object reaches through \<open>self\<close>: its name and type, the names of
  its source and target node populations, the libsonata population (the fields
  \<open>sonata_...\<close>), and the \<open>ids\<close> method of its source and target node populations, which
  resolves a node group to node IDs or fails with a message (raised as \<open>NodeError\<close>).
  All of them are parameters. The index layout behind \<open>afferent_edges\<close> and
  \<open>efferent_edges\<close> belongs to the storage file, so the selections are fields and not
  computed from an edge list. A column of values comes with its numpy dtype.
\<close>

record 'v population =
  name :: string
  ptype :: string
  source_name :: string
  target_name :: string
  sonata_size :: "64 word"
  sonata_attribute_names :: "string list"
  sonata_dynamics_attribute_names :: "string list"
  sonata_afferent_edges :: "nat list \<Rightarrow> selection"
  sonata_efferent_edges :: "nat list \<Rightarrow> selection"
  sonata_connecting_edges :: "nat list \<Rightarrow> nat list \<Rightarrow> selection"
  sonata_source_nodes :: "selection \<Rightarrow> nat list"
  sonata_target_nodes :: "selection \<Rightarrow> nat list"
  sonata_get_attribute :: "string \<Rightarrow> selection \<Rightarrow> 'v column"
  sonata_get_dynamics_attribute :: "string \<Rightarrow> selection \<Rightarrow> 'v column"
  source_ids :: "node_group \<Rightarrow> string + nat list"
  target_ids :: "node_group \<Rightarrow> string + nat list"

text \<open>
  The property \<open>size\<close> of the population: the number of edges, which libsonata holds in
  64 bits.
\<close>

definition size_population :: "'v population \<Rightarrow> nat" where
  "size_population pop = unat (sonata_size pop)"

text \<open>\<open>select_all()\<close> of libsonata is the single range of all edge IDs.\<close>

definition sonata_select_all :: "'v population \<Rightarrow> selection" where
  "sonata_select_all pop = [(0, size_population pop)]"

text \<open>
  Modelled from the spec: the constants of \<open>bluepysnap.sonata_constants\<close> (not under
  src/), which are the reserved names of the two topological properties and the
  reserved prefix of dynamics parameters, and \<open>utils.add_dynamic_prefix\<close>, which puts the
  prefix before each name. The strings are those of the library; the proofs use only
  that the prefix is not empty.
\<close>

definition SOURCE_NODE_ID :: string where
  "SOURCE_NODE_ID = ''@source_node''"

definition TARGET_NODE_ID :: string where
  "TARGET_NODE_ID = ''@target_node''"

definition DYNAMICS_PREFIX :: string where
  "DYNAMICS_PREFIX = ''@dynamics:''"

definition add_dynamic_prefix :: "string list \<Rightarrow> string list" where
  "add_dynamic_prefix names = map (\<lambda>n. DYNAMICS_PREFIX @ n) names"

definition attribute_names_set :: "'v population \<Rightarrow> string set" where
  "attribute_names_set pop = set (sonata_attribute_names pop)"

definition dynamics_params_names :: "'v population \<Rightarrow> string set" where
  "dynamics_params_names pop = set (add_dynamic_prefix (sonata_dynamics_attribute_names pop))"

definition topology_property_names :: "string set" where
  "topology_property_names = {SOURCE_NODE_ID, TARGET_NODE_ID}"

definition property_names :: "'v population \<Rightarrow> string set" where
  "property_names pop =
     attribute_names_set pop \<union> dynamics_params_names pop \<union> topology_property_names"

text \<open>
  Modelled from the spec: \<open>utils.ensure_ids\<close> (not under src/) converts to the fixed
  integer array type of IDs, \<open>np.asarray(a, dtype=IDS_DTYPE)\<close>. On the array of node IDs
  that libsonata returns it only fixes the dtype: node IDs are compared, counted and
  cast to uint32 here, and the model keeps them as the unsigned numbers of libsonata.
\<close>

definition ensure_ids_array :: "nat list \<Rightarrow> nat list" where
  "ensure_ids_array a = a"

text \<open>
  Modelled from the spec: \<open>utils.ensure_ids\<close> on the uint64 array of edge IDs that
  libsonata returns. The 64 bits of each value are kept, so a value from \<open>2 ^ 63\<close> on
  is a negative ID.
\<close>

definition ensure_ids_uint64 :: "nat list \<Rightarrow> id_array" where
  "ensure_ids_uint64 a = map of_nat a"

text \<open>
  The variable \<open>result\<close> of \<open>ids\<close> holds a Python list or a numpy array of integers. An
  array of any integer dtype is given by the 64-bit words that its conversion to int64
  has.
\<close>

datatype id_values = PyList "idval list" | NdArray id_array

fun len_values :: "id_values \<Rightarrow> nat" where
  "len_values (PyList vs) = length vs"
| "len_values (NdArray ws) = length ws"

fun is_typed :: "idval \<Rightarrow> bool" where
  "is_typed (PlainInt i) = False"
| "is_typed (CircuitEdgeId p i) = True"

fun plain_int :: "idval \<Rightarrow> int" where
  "plain_int (PlainInt i) = i"
| "plain_int (CircuitEdgeId p i) = i"

definition in_int64 :: "int \<Rightarrow> bool" where
  "in_int64 i = (- (2 ^ 63) \<le> i \<and> i < 2 ^ 63)"

text \<open>
  Modelled from the spec: \<open>utils.ensure_ids\<close> on the value of \<open>result\<close>. An array keeps
  its 64-bit words. In a Python list every element has to be an integer: a CircuitEdgeId
  is a (population, id) tuple, on which the conversion to an integer array fails inside
  numpy with a ValueError, and an integer that does not fit int64 is an OverflowError.
\<close>

definition ensure_ids :: "id_values \<Rightarrow> error + id_array" where
  "ensure_ids a =
     (case a of
        NdArray ws \<Rightarrow> Inr ws
      | PyList vs \<Rightarrow>
          if list_ex is_typed vs then Inl NumpyValueError
          else if list_all (\<lambda>v. in_int64 (plain_int v)) vs
            then Inr (map (\<lambda>v. of_int (plain_int v)) vs)
          else Inl OverflowError)"

text \<open>\<open>str.split(sep)\<close> for a non-empty separator.\<close>

function split_str :: "string \<Rightarrow> string \<Rightarrow> string \<Rightarrow> string list" where
  "split_str sep acc s =
     (if s = [] then [rev acc]
      else if sep \<noteq> [] \<and> take (length sep) s = sep
        then rev acc # split_str sep [] (drop (length sep) s)
      else split_str sep (hd s # acc) (tl s))"
  by pat_completeness auto
termination
  by (relation "measure (\<lambda>(sep, acc, s). length s)") auto

declare split_str.simps [simp del]

section \<open>Reading properties\<close>

text \<open>
  Names that start with an underscore in the source carry the prefix \<open>u_\<close> here
  (\<open>_get\<close> is \<open>u_get\<close>).
\<close>

definition u_get_property :: "'v population \<Rightarrow> string \<Rightarrow> selection \<Rightarrow> ('g, 'v column) io" where
  "u_get_property pop prop selection =
     (if prop = SOURCE_NODE_ID then
        backend (SourceNodes selection)
          (IDS_DTYPE, map IdCell (ensure_ids_array (sonata_source_nodes pop selection)))
      else if prop = TARGET_NODE_ID then
        backend (TargetNodes selection)
          (IDS_DTYPE, map IdCell (ensure_ids_array (sonata_target_nodes pop selection)))
      else if prop \<in> attribute_names_set pop then
        backend (GetAttribute prop selection) (sonata_get_attribute pop prop selection)
      else if prop \<in> dynamics_params_names pop then
        (case split_str DYNAMICS_PREFIX [] prop of
           _ # n # _ \<Rightarrow>
             backend (GetDynamicsAttribute n selection)
               (sonata_get_dynamics_attribute pop n selection)
         | _ \<Rightarrow> raise IndexError)
      else raise (NoSuchProperty prop))"

text \<open>
  What \<open>get\<close> returns: the bare ID array, a pandas Series (name, dtype, index, values) or
  a pandas DataFrame (named columns in order, index).
\<close>

datatype 'v table =
    IdArray id_array
  | Series string dtype id_array "'v cell list"
  | DataFrame "(string \<times> 'v column) list" id_array

text \<open>The \<open>properties\<close> argument: None, a scalar (a string) or an iterable of names.\<close>

datatype props = NoProps | Prop string | Props "string list"

text \<open>\<open>result[p] = values\<close> on a DataFrame: replaces the column p or appends it.\<close>

fun set_column ::
  "string \<Rightarrow> 'v column \<Rightarrow> (string \<times> 'v column) list \<Rightarrow> (string \<times> 'v column) list" where
  "set_column p c [] = [(p, c)]"
| "set_column p c ((q, d) # cols) =
     (if q = p then (p, c) # cols else (q, d) # set_column p c cols)"

fun fill_columns ::
  "'v population \<Rightarrow> selection \<Rightarrow> string list \<Rightarrow> (string \<times> 'v column) list \<Rightarrow>
   ('g, (string \<times> 'v column) list) io" where
  "fill_columns pop selection [] cols = ret cols"
| "fill_columns pop selection (p # ps) cols =
     bind (u_get_property pop p selection)
       (\<lambda>c. fill_columns pop selection ps (set_column p c cols))"

definition u_get :: "'v population \<Rightarrow> selection \<Rightarrow> props \<Rightarrow> ('g, 'v table) io" where
  "u_get pop selection properties =
     (let edge_ids = ensure_ids_uint64 (flatten selection) in
      case properties of
        NoProps \<Rightarrow> ret (IdArray edge_ids)
      | Props ps \<Rightarrow>
          if length edge_ids = 0 then ret (DataFrame (map (\<lambda>p. (p, (ObjectDtype, []))) ps) [])
          else bind (fill_columns pop selection ps []) (\<lambda>cols. ret (DataFrame cols edge_ids))
      | Prop p \<Rightarrow>
          if length edge_ids = 0 then ret (Series p Float64 [] [])
          else bind (u_get_property pop p selection)
                 (\<lambda>c. ret (Series p (fst c) edge_ids (snd c))))"

section \<open>Resolving edge IDs\<close>

text \<open>
  The functions of \<open>bluepysnap.query\<close> (not under src/) that the population calls. They
  are parameters, over any type \<open>'q\<close> of queries: \<open>get_properties\<close> gives the set of
  property names a query refers to (a list here, read without its duplicates),
  \<open>resolve_ids\<close> gives the boolean mask of a query over materialized data.
\<close>

record ('q, 'v) query_module =
  get_properties :: "'q \<Rightarrow> string list"
  resolve_ids :: "'v table \<Rightarrow> string \<Rightarrow> string \<Rightarrow> 'q \<Rightarrow> bool list"

text \<open>\<open>np.array_split(ary, sections)\<close>: the first \<open>len mod sections\<close> parts are one longer.\<close>

fun split_sizes :: "'a list \<Rightarrow> nat list \<Rightarrow> 'a list list" where
  "split_sizes xs [] = []"
| "split_sizes xs (n # ns) = take n xs # split_sizes (drop n xs) ns"

definition array_split :: "'a list \<Rightarrow> nat \<Rightarrow> 'a list list" where
  "array_split ary sections =
     (let each = length ary div sections; extras = length ary mod sections
      in split_sizes ary (replicate extras (each + 1) @ replicate (sections - extras) each))"

text \<open>\<open>chunk[mask]\<close> with a boolean mask aligned to the chunk.\<close>

definition mask_select :: "'a list \<Rightarrow> bool list \<Rightarrow> 'a list" where
  "mask_select chunk bools = map fst (filter snd (zip chunk bools))"

text \<open>
  \<open>libsonata.Selection(edge_ids)\<close> on an array of IDs: the binding casts the int64 array
  to uint64, which keeps the 64 bits.
\<close>

definition Selection_of_ids :: "id_array \<Rightarrow> selection" where
  "Selection_of_ids edge_ids = Selection (map unat edge_ids)"

text \<open>
  \<open>self.ids(None)\<close> and \<open>self.get(chunk, properties)\<close> for an array \<open>chunk\<close>, as
  \<open>_edge_ids_by_filter\<close> calls them: the branches of \<open>ids\<close> and \<open>get\<close> below that
  these arguments take (lemmas \<open>ids_of_None_is_ids\<close> and \<open>get_of_ndarray_is_get\<close>).
\<close>

definition ids_of_None :: "'v population \<Rightarrow> ('g, id_array) io" where
  "ids_of_None pop = backend SelectAll (ensure_ids_uint64 (flatten (sonata_select_all pop)))"

definition get_of_ndarray :: "'v population \<Rightarrow> id_array \<Rightarrow> props \<Rightarrow> ('g, 'v table) io" where
  "get_of_ndarray pop chunk properties = u_get pop (Selection_of_ids chunk) properties"

fun filter_chunks ::
  "'v population \<Rightarrow> ('q, 'v) query_module \<Rightarrow> 'q \<Rightarrow> string list \<Rightarrow> id_array list \<Rightarrow>
   id_array \<Rightarrow> ('g, id_array) io" where
  "filter_chunks pop qm queries known [] res = ret res"
| "filter_chunks pop qm queries known (chunk # chunks) res =
     bind (get_of_ndarray pop chunk (Props known))
       (\<lambda>data. filter_chunks pop qm queries known chunks
          (res @ mask_select chunk (resolve_ids qm data (name pop) (ptype pop) queries)))"

definition u_edge_ids_by_filter ::
  "'v population \<Rightarrow> ('q, 'v) query_module \<Rightarrow> 'q \<Rightarrow> bool \<Rightarrow> ('g, id_array) io" where
  "u_edge_ids_by_filter pop qm queries raise_missing_prop =
     (let properties = remdups (get_properties qm queries);
          unknown_props = filter (\<lambda>p. p \<notin> property_names pop) properties
      in if raise_missing_prop \<and> unknown_props \<noteq> []
         then raise (UnknownProperties (set unknown_props))
         else bind (ids_of_None pop)
           (\<lambda>ids. let chunk_size = 100000000
                  in filter_chunks pop qm queries
                       (filter (\<lambda>p. p \<notin> set unknown_props) properties)
                       (array_split ids (1 + length ids div chunk_size)) []))"

text \<open>
  The \<open>group\<close> argument of \<open>ids\<close>: None, a CircuitEdgeIds collection of
  (population, id) entries, a numpy array, a query mapping, or anything else: a scalar
  or a sequence. Modelled from the spec: \<open>utils.ensure_list\<close> (not under src/) wraps a
  scalar into a list of length 1 and keeps a sequence, and
  \<open>CircuitEdgeIds.filter_population(name).get_ids()\<close> (not under src/) extracts the IDs of
  the entries of the population.
\<close>

datatype 'q group =
    GNone
  | GCircuitEdgeIds "(string \<times> 64 word) list"
  | GNdArray id_array
  | GMapping 'q
  | GScalar idval
  | GSequence "idval list"

text \<open>The comprehension \<open>[cid.id for cid in result if cid.population == self.name]\<close>.\<close>

fun ids_of_population :: "string \<Rightarrow> idval list \<Rightarrow> error + int list" where
  "ids_of_population nm [] = Inr []"
| "ids_of_population nm (PlainInt n # vs) = Inl AttributeError"
| "ids_of_population nm (CircuitEdgeId p i # vs) =
     (case ids_of_population nm vs of
        Inl e \<Rightarrow> Inl e
      | Inr ns \<Rightarrow> Inr (if p = nm then i # ns else ns))"

definition check_typed_list :: "string \<Rightarrow> idval list \<Rightarrow> ('g, id_values) io" where
  "check_typed_list nm result =
     (case result of
        CircuitEdgeId p i # vs \<Rightarrow>
          (case ids_of_population nm result of
             Inl e \<Rightarrow> if e = AttributeError then raise InvalidIdType else raise e
           | Inr ns \<Rightarrow> ret (PyList (map PlainInt ns)))
      | _ \<Rightarrow> ret (PyList result))"

text \<open>
  The value of \<open>result\<close> after the if/elif chain of \<open>ids\<close>: an array in the first four
  branches, a Python list in the last.
\<close>

definition ids_result ::
  "'v population \<Rightarrow> ('q, 'v) query_module \<Rightarrow> 'q group \<Rightarrow> bool \<Rightarrow> ('g, id_values) io" where
  "ids_result pop qm grp raise_missing_property =
     (case grp of
        GNone \<Rightarrow>
          backend SelectAll (NdArray (ensure_ids_uint64 (flatten (sonata_select_all pop))))
      | GCircuitEdgeIds es \<Rightarrow> ret (NdArray (map snd (filter (\<lambda>e. fst e = name pop) es)))
      | GNdArray a \<Rightarrow> ret (NdArray a)
      | GMapping q \<Rightarrow>
          bind (u_edge_ids_by_filter pop qm q raise_missing_property) (\<lambda>r. ret (NdArray r))
      | GScalar v \<Rightarrow> check_typed_list (name pop) [v]
      | GSequence vs \<Rightarrow> check_typed_list (name pop) vs)"

text \<open>
  The float64 nearest to an integer, as an integer (ties go to the even mantissa of 53
  bits), and the cast of a float64 to int64 that \<open>ensure_ids\<close> makes afterwards: on x86-64
  a value outside int64 gives \<open>- (2 ^ 63)\<close>.
\<close>

fun bit_length :: "nat \<Rightarrow> nat" where
  "bit_length n = (if n = 0 then 0 else Suc (bit_length (n div 2)))"

declare bit_length.simps [simp del]

definition float64_of :: "int \<Rightarrow> int" where
  "float64_of i =
     (let a = nat \<bar>i\<bar>; q = 2 ^ (bit_length a - 53); d = a div q; r = a mod q;
          m = (if q < 2 * r \<or> (q = 2 * r \<and> odd d) then d + 1 else d)
      in sgn i * int (m * q))"

definition int64_of_float64 :: "int \<Rightarrow> 64 word" where
  "int64_of_float64 f = (if in_int64 f then of_int f else of_int (- (2 ^ 63)))"

text \<open>
  What \<open>np.random.choice\<close> does first with a Python list: \<open>np.array(a)\<close>. A list with a
  tuple among integers has no shape, a ValueError. Integers that all fit int64 give an
  int64 array, integers that are all from \<open>2 ^ 63\<close> up to \<open>2 ^ 64 - 1\<close> a uint64 array;
  both are given by their 64-bit words. With an integer outside both types the array
  has the dtype object and keeps the integers of Python, as the list does. What is left
  mixes integers of int64 with integers of uint64 only, and numpy makes it an array of
  float64.
\<close>

definition np_array :: "idval list \<Rightarrow> error + id_values" where
  "np_array vs =
     (let ints = map plain_int vs
      in if list_ex is_typed vs then Inl NumpyValueError
         else if list_all in_int64 ints \<or> list_all (\<lambda>i. 2 ^ 63 \<le> i \<and> i < 2 ^ 64) ints
           then Inr (NdArray (map of_int ints))
         else if list_ex (\<lambda>i. i < - (2 ^ 63) \<or> 2 ^ 64 \<le> i) ints then Inr (PyList vs)
         else Inr (NdArray (map (\<lambda>i. int64_of_float64 (float64_of i)) ints)))"

text \<open>\<open>np.random.choice(result, size, replace=False)\<close> on the value of \<open>result\<close>.\<close>

fun choice_values :: "'g perm \<Rightarrow> id_values \<Rightarrow> int \<Rightarrow> ('g, id_values) io" where
  "choice_values perm (NdArray ws) n = bind (choice perm ws n) (\<lambda>ys. ret (NdArray ys))"
| "choice_values perm (PyList vs) n = bind (choice perm vs n) (\<lambda>ys. ret (PyList ys))"

definition random_choice :: "'g perm \<Rightarrow> id_values \<Rightarrow> int \<Rightarrow> ('g, id_values) io" where
  "random_choice perm a n =
     (case a of
        NdArray ws \<Rightarrow> choice_values perm a n
      | PyList vs \<Rightarrow> bind (lift (np_array vs)) (\<lambda>arr. choice_values perm arr n))"

text \<open>\<open>result[:limit]\<close>; a negative limit counts from the end.\<close>

definition slice_to :: "'a list \<Rightarrow> int \<Rightarrow> 'a list" where
  "slice_to xs l = (if l < 0 then take (nat (int (length xs) + l)) xs else take (nat l) xs)"

fun slice_values :: "id_values \<Rightarrow> int \<Rightarrow> id_values" where
  "slice_values (PyList vs) l = PyList (slice_to vs l)"
| "slice_values (NdArray ws) l = NdArray (slice_to ws l)"

definition ids ::
  "'v population \<Rightarrow> ('q, 'v) query_module \<Rightarrow> 'g perm \<Rightarrow> 'q group \<Rightarrow> int option \<Rightarrow>
   int option \<Rightarrow> bool \<Rightarrow> ('g, id_array) io" where
  "ids pop qm perm grp limit sample raise_missing_property =
     bind (ids_result pop qm grp raise_missing_property) (\<lambda>result.
     bind (case sample of
             None \<Rightarrow> ret result
           | Some n \<Rightarrow>
               if len_values result > 0
               then random_choice perm result (min n (int (len_values result)))
               else ret result) (\<lambda>result.
     lift (ensure_ids (case limit of None \<Rightarrow> result | Some l \<Rightarrow> slice_values result l))))"

definition get ::
  "'v population \<Rightarrow> ('q, 'v) query_module \<Rightarrow> 'g perm \<Rightarrow> 'q group \<Rightarrow> props \<Rightarrow>
   ('g, 'v table) io" where
  "get pop qm perm edge_ids properties =
     bind (ids pop qm perm edge_ids None None True)
       (\<lambda>edge_ids. u_get pop (Selection_of_ids edge_ids) properties)"

text \<open>\<open>.dtypes\<close> of a result, as a map from column name to dtype.\<close>

fun dtypes :: "'v table \<Rightarrow> (string \<rightharpoonup> dtype)" where
  "dtypes (IdArray a) = Map.empty"
| "dtypes (Series p dt idx vs) = [p \<mapsto> dt]"
| "dtypes (DataFrame cols idx) = map_of (map (\<lambda>c. (fst c, fst (snd c))) cols)"

definition property_names_list :: "'v population \<Rightarrow> string list" where
  "property_names_list pop =
     remdups (sonata_attribute_names pop
              @ add_dynamic_prefix (sonata_dynamics_attribute_names pop)
              @ [SOURCE_NODE_ID, TARGET_NODE_ID])"

definition property_dtypes ::
  "'v population \<Rightarrow> ('q, 'v) query_module \<Rightarrow> 'g perm \<Rightarrow> ('g, string \<rightharpoonup> dtype) io" where
  "property_dtypes pop qm perm =
     bind (get pop qm perm (GSequence [PlainInt 0]) (Props (property_names_list pop)))
       (\<lambda>t. ret (dtypes t))"

section \<open>Nodes and edges along a pathway\<close>

definition u_resolve_node_ids ::
  "(node_group \<Rightarrow> string + nat list) \<Rightarrow> node_group option \<Rightarrow> error + nat list option" where
  "u_resolve_node_ids nodes_ids grp =
     (case grp of
        None \<Rightarrow> Inr None
      | Some g \<Rightarrow>
          (case nodes_ids g of Inl msg \<Rightarrow> Inl (NodeError msg) | Inr ns \<Rightarrow> Inr (Some ns)))"

text \<open>\<open>np.unique\<close>: the sorted distinct values.\<close>

definition np_unique :: "nat list \<Rightarrow> nat list" where
  "np_unique xs = sort (remdups xs)"

text \<open>
  A libsonata selection primitive applied to resolved node IDs. The primitives take an
  array; None, which the callers exclude, would be a TypeError of the binding.
\<close>

definition select_edges ::
  "(nat list \<Rightarrow> call) \<Rightarrow> (nat list \<Rightarrow> selection) \<Rightarrow> nat list option \<Rightarrow> ('g, selection) io" where
  "select_edges tag prim node_ids =
     (case node_ids of None \<Rightarrow> raise TypeError | Some ns \<Rightarrow> backend (tag ns) (prim ns))"

definition afferent_nodes :: "'v population \<Rightarrow> node_group option \<Rightarrow> bool \<Rightarrow> ('g, nat list) io" where
  "afferent_nodes pop target unique =
     bind (if target \<noteq> None
           then bind (lift (u_resolve_node_ids (target_ids pop) target))
                  (select_edges AfferentEdges (sonata_afferent_edges pop))
           else backend SelectAll (sonata_select_all pop)) (\<lambda>selection.
     bind (backend (SourceNodes selection) (sonata_source_nodes pop selection)) (\<lambda>result.
     ret (ensure_ids_array (if unique then np_unique result else result))))"

definition efferent_nodes :: "'v population \<Rightarrow> node_group option \<Rightarrow> bool \<Rightarrow> ('g, nat list) io" where
  "efferent_nodes pop source unique =
     bind (if source \<noteq> None
           then bind (lift (u_resolve_node_ids (source_ids pop) source))
                  (select_edges EfferentEdges (sonata_efferent_edges pop))
           else backend SelectAll (sonata_select_all pop)) (\<lambda>selection.
     bind (backend (TargetNodes selection) (sonata_target_nodes pop selection)) (\<lambda>result.
     ret (ensure_ids_array (if unique then np_unique result else result))))"

text \<open>Truth value of the \<open>properties\<close> argument in \<open>if properties:\<close>.\<close>

fun truthy :: "props \<Rightarrow> bool" where
  "truthy NoProps = False"
| "truthy (Prop p) = (p \<noteq> [])"
| "truthy (Props ps) = (ps \<noteq> [])"

definition pathway_edges ::
  "'v population \<Rightarrow> node_group option \<Rightarrow> node_group option \<Rightarrow> props \<Rightarrow> ('g, 'v table) io" where
  "pathway_edges pop source target properties =
     (if source = None \<and> target = None then raise EitherSourceOrTarget
      else
        bind (lift (u_resolve_node_ids (source_ids pop) source)) (\<lambda>source_node_ids.
        bind (lift (u_resolve_node_ids (target_ids pop) target)) (\<lambda>target_edge_ids.
        bind (if source_node_ids = None
              then select_edges AfferentEdges (sonata_afferent_edges pop) target_edge_ids
              else if target_edge_ids = None
              then select_edges EfferentEdges (sonata_efferent_edges pop) source_node_ids
              else (case (source_node_ids, target_edge_ids) of
                      (Some s, Some t) \<Rightarrow>
                        backend (ConnectingEdges s t) (sonata_connecting_edges pop s t)
                    | _ \<Rightarrow> raise TypeError)) (\<lambda>selection.
        if truthy properties then u_get pop selection properties
        else ret (IdArray (ensure_ids_uint64 (flatten selection)))))))"

definition afferent_edges :: "'v population \<Rightarrow> node_group option \<Rightarrow> props \<Rightarrow> ('g, 'v table) io" where
  "afferent_edges pop node_id properties = pathway_edges pop None node_id properties"

definition efferent_edges :: "'v population \<Rightarrow> node_group option \<Rightarrow> props \<Rightarrow> ('g, 'v table) io" where
  "efferent_edges pop node_id properties = pathway_edges pop node_id None properties"

definition pair_edges ::
  "'v population \<Rightarrow> node_group option \<Rightarrow> node_group option \<Rightarrow> props \<Rightarrow> ('g, 'v table) io" where
  "pair_edges pop source_node_id target_node_id properties =
     pathway_edges pop source_node_id target_node_id properties"

section \<open>The connection iterator\<close>

text \<open>Resolved node IDs are None (unconstrained) or an array.\<close>

definition u_is_empty :: "'a list option \<Rightarrow> bool" where
  "u_is_empty xs = (xs \<noteq> None \<and> length (the xs) = 0)"

text \<open>
  \<open>np.median\<close> of a list of counts. The median of no values is nan, here None; a
  comparison with nan is false.
\<close>

definition median :: "nat list \<Rightarrow> rat option" where
  "median xs =
     (let s = sort xs; n = length s
      in if n = 0 then None
         else if even n then Some ((of_nat (s ! (n div 2 - 1)) + of_nat (s ! (n div 2))) / 2)
         else Some (of_nat (s ! (n div 2))))"

definition median_less :: "rat option \<Rightarrow> rat option \<Rightarrow> bool" where
  "median_less a b = (case (a, b) of (Some x, Some y) \<Rightarrow> x < y | _ \<Rightarrow> False)"

fun map_io :: "('a \<Rightarrow> ('g, 'b) io) \<Rightarrow> 'a list \<Rightarrow> ('g, 'b list) io" where
  "map_io f [] = ret []"
| "map_io f (x # xs) = bind (f x) (\<lambda>y. bind (map_io f xs) (\<lambda>ys. ret (y # ys)))"

definition u_estimate_range_size ::
  "'g perm \<Rightarrow> (nat \<Rightarrow> ('g, selection) io) \<Rightarrow> nat list \<Rightarrow> nat \<Rightarrow> ('g, rat option) io" where
  "u_estimate_range_size perm func node_ids n =
     (if \<not> length node_ids > 0 then raise AssertionError
      else
        bind (if length node_ids > n then choice perm node_ids (int n) else ret node_ids)
          (\<lambda>node_ids.
        bind (map_io (\<lambda>node_id. bind (func node_id) (\<lambda>sel. ret (length sel))) node_ids)
          (\<lambda>sizes. ret (median sizes))))"

datatype direction = Source | Target

text \<open>The bound methods \<open>self._population.efferent_edges\<close> and \<open>afferent_edges\<close> on one node ID.\<close>

definition population_efferent_edges :: "'v population \<Rightarrow> nat \<Rightarrow> ('g, selection) io" where
  "population_efferent_edges pop node_id =
     backend (EfferentEdges [node_id]) (sonata_efferent_edges pop [node_id])"

definition population_afferent_edges :: "'v population \<Rightarrow> nat \<Rightarrow> ('g, selection) io" where
  "population_afferent_edges pop node_id =
     backend (AfferentEdges [node_id]) (sonata_afferent_edges pop [node_id])"

definition u_optimal_direction ::
  "'v population \<Rightarrow> 'g perm \<Rightarrow> nat list option \<Rightarrow> nat list option \<Rightarrow> ('g, direction) io" where
  "u_optimal_direction pop perm source_node_ids target_node_ids =
     (if target_node_ids = None \<and> source_node_ids = None then raise EitherSourceOrTarget
      else case source_node_ids of
        None \<Rightarrow> ret Target
      | Some s \<Rightarrow>
         (case target_node_ids of
            None \<Rightarrow> ret Source
          | Some t \<Rightarrow>
              bind (u_estimate_range_size perm (population_efferent_edges pop) s 3)
                (\<lambda>range_size_source.
              bind (u_estimate_range_size perm (population_afferent_edges pop) t 3)
                (\<lambda>range_size_target.
              ret (if median_less range_size_source range_size_target
                   then Source else Target)))))"

text \<open>
  \<open>_iter_connections\<close> is a generator: calling it runs nothing, and each advance runs
  its body up to the next \<open>yield\<close>. A generator object is the point where the body is
  suspended: not started (with the arguments of the call), at the \<open>yield\<close> (with the
  local variables that are still read), or finished.
\<close>

record settings =
  s_direction :: direction
  s_secondary :: "nat list option"
  s_unique :: bool
  s_shuffle :: bool

datatype generator =
    Created "nat list option" "nat list option" bool bool
  | Suspended settings "nat set" "nat list" nat nat "(nat \<times> nat) list"
  | Finished

text \<open>
  The fields of \<open>Suspended\<close>: the settings fixed before the loop,
  \<open>secondary_node_ids_used\<close>, the primary node IDs after the current one,
  \<open>key_node_id\<close>, the \<open>conn_node_id\<close> just yielded, and the rows of the current
  primary node after the one just yielded.
\<close>

definition u_iter_connections ::
  "nat list option \<Rightarrow> nat list option \<Rightarrow> bool \<Rightarrow> bool \<Rightarrow> generator" where
  "u_iter_connections source_node_ids target_node_ids unique_node_ids shuffle_flag =
     Created source_node_ids target_node_ids unique_node_ids shuffle_flag"

text \<open>
  \<open>astype(np.uint32)\<close> on the stacked IDs and counts: the value modulo \<open>2 ^ 32\<close>.
\<close>

definition astype_uint32 :: "nat \<Rightarrow> nat" where
  "astype_uint32 n = n mod 2 ^ 32"

text \<open>
  The rows \<open>[secondary_node_id, count]\<close> of one primary node: distinct connected IDs with
  their multiplicities, cast to uint32, then restricted to the secondary IDs.
\<close>

definition connected_rows :: "nat list \<Rightarrow> nat list option \<Rightarrow> (nat \<times> nat) list" where
  "connected_rows connected_node_ids secondary =
     (let with_count =
            map (\<lambda>v. (astype_uint32 v, astype_uint32 (count_list connected_node_ids v)))
              (np_unique connected_node_ids)
      in case secondary of
           None \<Rightarrow> with_count
         | Some sec \<Rightarrow> filter (\<lambda>r. fst r \<in> set sec) with_count)"

definition get_connected_node_ids ::
  "'v population \<Rightarrow> direction \<Rightarrow> nat \<Rightarrow> ('g, nat list) io" where
  "get_connected_node_ids pop d key_node_id =
     (if d = Target then afferent_nodes pop (Some (NodeId key_node_id)) False
      else efferent_nodes pop (Some (NodeId key_node_id)) False)"

text \<open>The inner loop up to its next \<open>yield\<close>: rows already used are skipped.\<close>

fun next_row ::
  "bool \<Rightarrow> nat set \<Rightarrow> (nat \<times> nat) list \<Rightarrow> ((nat \<times> nat) \<times> (nat \<times> nat) list) option" where
  "next_row u used [] = None"
| "next_row u used (r # rows) =
     (if u \<and> fst r \<in> used then next_row u used rows else Some (r, rows))"

definition emit :: "direction \<Rightarrow> nat \<Rightarrow> nat \<times> nat \<Rightarrow> nat \<times> nat \<times> nat" where
  "emit d key_node_id r =
     (if d = Target then (fst r, key_node_id, snd r) else (key_node_id, fst r, snd r))"

text \<open>The outer loop from the primary nodes still to visit, up to the next \<open>yield\<close>.\<close>

fun visit_primary ::
  "'v population \<Rightarrow> 'g perm \<Rightarrow> settings \<Rightarrow> nat set \<Rightarrow> nat list \<Rightarrow>
   ('g, (nat \<times> nat \<times> nat) option \<times> generator) io" where
  "visit_primary pop perm st used [] = ret (None, Finished)"
| "visit_primary pop perm st used (key_node_id # keys) =
     bind (get_connected_node_ids pop (s_direction st) key_node_id) (\<lambda>connected_node_ids.
     bind (let rows = connected_rows connected_node_ids (s_secondary st)
           in if s_shuffle st then shuffle perm rows else ret rows) (\<lambda>rows.
     case next_row (s_unique st) used rows of
       None \<Rightarrow> visit_primary pop perm st used keys
     | Some (r, rest) \<Rightarrow>
         ret (Some (emit (s_direction st) key_node_id r),
              Suspended st used keys key_node_id (fst r) rest)))"

text \<open>
  One advance of the generator: the yielded triple (source, target, count), or None when
  the body returns (StopIteration), and the generator afterwards.
\<close>

definition u_iter_connections_next ::
  "'v population \<Rightarrow> 'g perm \<Rightarrow> generator \<Rightarrow>
   ('g, (nat \<times> nat \<times> nat) option \<times> generator) io" where
  "u_iter_connections_next pop perm gen =
     (case gen of
        Finished \<Rightarrow> ret (None, Finished)
      | Created source_node_ids target_node_ids unique_node_ids shuffle_flag \<Rightarrow>
          if u_is_empty source_node_ids \<or> u_is_empty target_node_ids then ret (None, Finished)
          else
            bind (u_optimal_direction pop perm source_node_ids target_node_ids) (\<lambda>d.
            let primary_node_ids = (if d = Target then target_node_ids else source_node_ids);
                secondary_node_ids = (if d = Target then source_node_ids else target_node_ids)
            in case primary_node_ids of
                 None \<Rightarrow> raise TypeError
               | Some primary \<Rightarrow>
                   bind (if shuffle_flag then shuffle perm (np_unique primary)
                         else ret (np_unique primary)) (\<lambda>primary.
                   visit_primary pop perm
                     \<lparr>s_direction = d, s_secondary = map_option np_unique secondary_node_ids,
                      s_unique = unique_node_ids, s_shuffle = shuffle_flag\<rparr> {} primary))
      | Suspended st used keys key_node_id conn_node_id rows \<Rightarrow>
          if s_unique st then visit_primary pop perm st (insert conn_node_id used) keys
          else (case next_row (s_unique st) used rows of
                  None \<Rightarrow> visit_primary pop perm st used keys
                | Some (r, rest) \<Rightarrow>
                    ret (Some (emit (s_direction st) key_node_id r),
                         Suspended st used keys key_node_id (fst r) rest)))"

text \<open>
  The three generator expressions over \<open>its\<close>, and what \<open>iter_connections\<close> returns: one of
  them around the generator.
\<close>

datatype annotation = EdgeCount nat | CircuitEdgeIds string id_array | NoAnnotation

type_synonym connection = "circuit_node_id \<times> circuit_node_id \<times> annotation"

datatype connections = AddCircuitIds generator | AddEdgeIds generator | OmitEdgeCount generator

fun table_index :: "'v table \<Rightarrow> id_array" where
  "table_index (IdArray a) = a"
| "table_index (Series p dt idx vs) = idx"
| "table_index (DataFrame cols idx) = idx"

fun table_columns :: "'v table \<Rightarrow> (string \<times> 'v column) list" where
  "table_columns (IdArray a) = []"
| "table_columns (Series p dt idx vs) = [(p, (dt, vs))]"
| "table_columns (DataFrame cols idx) = cols"

definition u_add_circuit_ids :: "'v population \<Rightarrow> nat \<times> nat \<times> nat \<Rightarrow> ('g, connection) io" where
  "u_add_circuit_ids pop x =
     ret (CircuitNodeId (source_name pop) (fst x), CircuitNodeId (target_name pop) (fst (snd x)),
          EdgeCount (snd (snd x)))"

definition u_add_edge_ids :: "'v population \<Rightarrow> nat \<times> nat \<times> nat \<Rightarrow> ('g, connection) io" where
  "u_add_edge_ids pop x =
     bind (pair_edges pop (Some (NodeId (fst x))) (Some (NodeId (fst (snd x)))) NoProps)
       (\<lambda>edges.
     ret (CircuitNodeId (source_name pop) (fst x), CircuitNodeId (target_name pop) (fst (snd x)),
          CircuitEdgeIds (name pop) (table_index edges)))"

definition u_omit_edge_count :: "'v population \<Rightarrow> nat \<times> nat \<times> nat \<Rightarrow> ('g, connection) io" where
  "u_omit_edge_count pop x =
     ret (CircuitNodeId (source_name pop) (fst x), CircuitNodeId (target_name pop) (fst (snd x)),
          NoAnnotation)"

definition wrap ::
  "(generator \<Rightarrow> connections) \<Rightarrow> (nat \<times> nat \<times> nat \<Rightarrow> ('g, connection) io) \<Rightarrow>
   (nat \<times> nat \<times> nat) option \<times> generator \<Rightarrow> ('g, connection option \<times> connections) io" where
  "wrap con f r =
     (case fst r of
        None \<Rightarrow> ret (None, con (snd r))
      | Some x \<Rightarrow> bind (f x) (\<lambda>y. ret (Some y, con (snd r))))"

text \<open>One advance of the iterator that \<open>iter_connections\<close> returned.\<close>

fun connections_next ::
  "'v population \<Rightarrow> 'g perm \<Rightarrow> connections \<Rightarrow> ('g, connection option \<times> connections) io" where
  "connections_next pop perm (AddCircuitIds its) =
     bind (u_iter_connections_next pop perm its) (wrap AddCircuitIds (u_add_circuit_ids pop))"
| "connections_next pop perm (AddEdgeIds its) =
     bind (u_iter_connections_next pop perm its) (wrap AddEdgeIds (u_add_edge_ids pop))"
| "connections_next pop perm (OmitEdgeCount its) =
     bind (u_iter_connections_next pop perm its) (wrap OmitEdgeCount (u_omit_edge_count pop))"

definition iter_connections ::
  "'v population \<Rightarrow> node_group option \<Rightarrow> node_group option \<Rightarrow> bool \<Rightarrow> bool \<Rightarrow> bool \<Rightarrow> bool \<Rightarrow>
   ('g, connections) io" where
  "iter_connections pop source target unique_node_ids shuffle_flag return_edge_ids
     return_edge_count =
     (if return_edge_ids \<and> return_edge_count then raise MutuallyExclusive
      else
        bind (lift (u_resolve_node_ids (source_ids pop) source)) (\<lambda>source_node_ids.
        bind (lift (u_resolve_node_ids (target_ids pop) target)) (\<lambda>target_node_ids.
        let it = u_iter_connections source_node_ids target_node_ids unique_node_ids shuffle_flag
        in if return_edge_count then ret (AddCircuitIds it)
           else if return_edge_ids then ret (AddEdgeIds it)
           else ret (OmitEdgeCount it))))"

text \<open>
  The connections an iterator has emitted after some number of advances. Between two
  advances the caller may do anything to the world, so each advance starts in any world.
\<close>

inductive emitted ::
  "'v population \<Rightarrow> 'g perm \<Rightarrow> connections \<Rightarrow> connection list \<Rightarrow> connections \<Rightarrow> bool"
  for pop :: "'v population" and perm :: "'g perm" and it :: connections where
  emitted_none: "emitted pop perm it [] it"
| emitted_next:
    "emitted pop perm it xs it' \<Longrightarrow>
     connections_next pop perm it' w = (Inr (Some x, it''), w') \<Longrightarrow>
     emitted pop perm it (xs @ [x]) it''"

definition conn_source :: "connection \<Rightarrow> circuit_node_id" where
  "conn_source x = fst x"

definition conn_target :: "connection \<Rightarrow> circuit_node_id" where
  "conn_target x = fst (snd x)"

section \<open>A small population to run the model on\<close>

text \<open>
  Four edges: 0 \<rightarrow> 1 twice, 0 \<rightarrow> 2 and 3 \<rightarrow> 1, with two attributes and one dynamics
  parameter. The node populations resolve a single ID and a list of IDs to themselves.
\<close>

definition example_sources :: "nat list" where
  "example_sources = [0, 0, 0, 3]"

definition example_targets :: "nat list" where
  "example_targets = [1, 1, 2, 1]"

definition example_node_ids :: "node_group \<Rightarrow> string + nat list" where
  "example_node_ids g =
     (case g of NodeId n \<Rightarrow> Inr [n] | NodeIds ns \<Rightarrow> Inr ns | NodeSet s \<Rightarrow> Inl s)"

definition example_population :: "nat population" where
  "example_population =
     \<lparr>name = ''default'', ptype = ''chemical'', source_name = ''default'',
      target_name = ''default'', sonata_size = 4,
      sonata_attribute_names = [''syn_weight'', ''delay''],
      sonata_dynamics_attribute_names = [''param1''],
      sonata_afferent_edges =
        (\<lambda>ns. Selection (filter (\<lambda>e. example_targets ! e \<in> set ns) [0, 1, 2, 3])),
      sonata_efferent_edges =
        (\<lambda>ns. Selection (filter (\<lambda>e. example_sources ! e \<in> set ns) [0, 1, 2, 3])),
      sonata_connecting_edges =
        (\<lambda>ss ts. Selection (filter (\<lambda>e. example_sources ! e \<in> set ss
                                        \<and> example_targets ! e \<in> set ts) [0, 1, 2, 3])),
      sonata_source_nodes = (\<lambda>sel. map (\<lambda>e. example_sources ! e) (flatten sel)),
      sonata_target_nodes = (\<lambda>sel. map (\<lambda>e. example_targets ! e) (flatten sel)),
      sonata_get_attribute = (\<lambda>p sel. (Float64, map (\<lambda>e. Cell (Suc e)) (flatten sel))),
      sonata_get_dynamics_attribute =
        (\<lambda>p sel. (Float64, map (\<lambda>e. Cell (2 * e)) (flatten sel))),
      source_ids = example_node_ids, target_ids = example_node_ids\<rparr>"

text \<open>
  Modelled from the spec: a query module in the manner of \<open>bluepysnap.query\<close> (not under
  src/). A query is a list of tests (property, value) that all have to hold: a row is
  selected when every tested property has the tested value in that row. A test on a
  property that the data has no column for selects no row (the docstring of \<open>ids\<close>: the
  ids are just not selected if a property is missing).
\<close>

definition example_test :: "'v table \<Rightarrow> nat \<Rightarrow> string \<times> 'v cell \<Rightarrow> bool" where
  "example_test data i t =
     (case map_of (table_columns data) (fst t) of
        None \<Rightarrow> False
      | Some c \<Rightarrow> snd c ! i = snd t)"

definition example_query_module :: "((string \<times> nat cell) list, nat) query_module" where
  "example_query_module =
     \<lparr>get_properties = map fst,
      resolve_ids = (\<lambda>data n t q.
        map (\<lambda>i. list_all (example_test data i) q) [0..<length (table_index data)])\<rparr>"

text \<open>A random source whose state counts the draws: the k-th draw rotates by k.\<close>

definition example_perm :: "nat perm" where
  "example_perm = (\<lambda>g n. (rotate g [0..<n], Suc g))"

definition example_world :: "nat world" where
  "example_world = \<lparr>calls = [], rng = 1\<rparr>"

section \<open>The words of the specification\<close>

text \<open>
  Sampling and limiting as the specification describes them, to compare \<open>ids\<close> with.
  Sampling \<open>sample\<close> elements of \<open>xs\<close> without replacement gives \<open>min(sample, len(xs))\<close>
  elements taken from distinct positions of \<open>xs\<close>, all of them when \<open>sample\<close> is at
  least the length; without \<open>sample\<close> nothing changes. Limiting keeps the first
  \<open>limit\<close> elements. A count that is not negative is a number of elements.
\<close>

definition nonneg :: "int option \<Rightarrow> bool" where
  "nonneg x = (case x of None \<Rightarrow> True | Some n \<Rightarrow> 0 \<le> n)"

definition sampled :: "int option \<Rightarrow> 'a list \<Rightarrow> 'a list \<Rightarrow> bool" where
  "sampled sample xs ys =
     (case sample of
        None \<Rightarrow> ys = xs
      | Some n \<Rightarrow> length ys = min (nat n) (length xs) \<and> mset ys \<subseteq># mset xs
                  \<and> (int (length xs) \<le> n \<longrightarrow> mset ys = mset xs))"

definition limited :: "int option \<Rightarrow> 'a list \<Rightarrow> 'a list" where
  "limited limit ys = (case limit of None \<Rightarrow> ys | Some l \<Rightarrow> take (nat l) ys)"

text \<open>
  The sample that a random source in the state \<open>g\<close> draws from the whole of \<open>xs\<close>: the
  elements at the first \<open>min(sample, len(xs))\<close> positions of the arrangement that the
  source gives for the positions of \<open>xs\<close>.
\<close>

definition drawn :: "'g perm \<Rightarrow> 'g \<Rightarrow> int option \<Rightarrow> 'a list \<Rightarrow> 'a list" where
  "drawn perm g sample xs =
     (case sample of
        None \<Rightarrow> xs
      | Some n \<Rightarrow>
          map (\<lambda>i. xs ! i) (take (min (nat n) (length xs)) (fst (perm g (length xs)))))"

text \<open>The names a \<open>properties\<close> argument asks for.\<close>

fun requested :: "props \<Rightarrow> string list" where
  "requested NoProps = []"
| "requested (Prop p) = [p]"
| "requested (Props ps) = ps"

text \<open>
  The evaluation of a query in the lenient mode, as the specification describes it. The
  names that the query refers to and the population has are the known properties. The
  edge IDs 0 .. size - 1 are cut into chunks of at most \<open>10 ^ 8\<close> IDs. For each chunk the
  known properties, and no other, are read from the backend for the edges of the chunk,
  one read for each, and make the columns of a table indexed by the chunk; a chunk of no
  IDs reads nothing. The query, as it was given, is resolved over that table, and the
  IDs of the chunk that its mask selects are kept, chunk after chunk.
\<close>

definition known_properties :: "'v population \<Rightarrow> ('q, 'v) query_module \<Rightarrow> 'q \<Rightarrow> string list" where
  "known_properties pop qm q =
     filter (\<lambda>p. p \<in> property_names pop) (remdups (get_properties qm q))"

definition property_read :: "'v population \<Rightarrow> string \<Rightarrow> selection \<Rightarrow> call \<times> 'v column" where
  "property_read pop prop sel =
     (if prop = SOURCE_NODE_ID
        then (SourceNodes sel, (IDS_DTYPE, map IdCell (sonata_source_nodes pop sel)))
      else if prop = TARGET_NODE_ID
        then (TargetNodes sel, (IDS_DTYPE, map IdCell (sonata_target_nodes pop sel)))
      else if prop \<in> attribute_names_set pop
        then (GetAttribute prop sel, sonata_get_attribute pop prop sel)
      else let n = split_str DYNAMICS_PREFIX [] prop ! 1
           in (GetDynamicsAttribute n sel, sonata_get_dynamics_attribute pop n sel))"

definition materialized :: "'v population \<Rightarrow> string list \<Rightarrow> id_array \<Rightarrow> 'v table" where
  "materialized pop names chunk =
     (if chunk = [] then DataFrame (map (\<lambda>p. (p, (ObjectDtype, []))) names) []
      else DataFrame
             (map (\<lambda>p. (p, snd (property_read pop p (Selection_of_ids chunk)))) names) chunk)"

definition reads :: "'v population \<Rightarrow> string list \<Rightarrow> id_array \<Rightarrow> call list" where
  "reads pop names chunk =
     (if chunk = [] then []
      else map (\<lambda>p. fst (property_read pop p (Selection_of_ids chunk))) names)"

definition query_chunks :: "'v population \<Rightarrow> id_array list" where
  "query_chunks pop =
     (let all_ids = map of_nat [0..<size_population pop]
      in array_split all_ids (1 + length all_ids div 100000000))"

definition selected_by_query :: "'v population \<Rightarrow> ('q, 'v) query_module \<Rightarrow> 'q \<Rightarrow> id_array" where
  "selected_by_query pop qm q =
     concat (map (\<lambda>chunk. mask_select chunk
                    (resolve_ids qm (materialized pop (known_properties pop qm q) chunk)
                       (name pop) (ptype pop) q))
               (query_chunks pop))"

definition query_calls :: "'v population \<Rightarrow> ('q, 'v) query_module \<Rightarrow> 'q \<Rightarrow> call list" where
  "query_calls pop qm q =
     SelectAll # concat (map (reads pop (known_properties pop qm q)) (query_chunks pop))"

text \<open>
  The backend primitive that matches the sides given to \<open>pathway_edges\<close>: afferent-only
  for a target alone, efferent-only for a source alone, connecting edges for both.
\<close>

definition pathway_call :: "nat list option \<Rightarrow> nat list option \<Rightarrow> call option" where
  "pathway_call source_node_ids target_node_ids =
     (case (source_node_ids, target_node_ids) of
        (None, None) \<Rightarrow> None
      | (None, Some t) \<Rightarrow> Some (AfferentEdges t)
      | (Some s, None) \<Rightarrow> Some (EfferentEdges s)
      | (Some s, Some t) \<Rightarrow> Some (ConnectingEdges s t))"

definition pathway_selection ::
  "'v population \<Rightarrow> nat list option \<Rightarrow> nat list option \<Rightarrow> selection" where
  "pathway_selection pop source_node_ids target_node_ids =
     (case (source_node_ids, target_node_ids) of
        (None, None) \<Rightarrow> []
      | (None, Some t) \<Rightarrow> sonata_afferent_edges pop t
      | (Some s, None) \<Rightarrow> sonata_efferent_edges pop s
      | (Some s, Some t) \<Rightarrow> sonata_connecting_edges pop s t)"

text \<open>
  The secondary-side and the primary-side node of a connection, for a direction of the
  iteration: with the target side primary, the secondary node is the source.
\<close>

definition secondary_side :: "direction \<Rightarrow> connection \<Rightarrow> circuit_node_id" where
  "secondary_side d x = (if d = Target then conn_source x else conn_target x)"

definition primary_side :: "direction \<Rightarrow> connection \<Rightarrow> circuit_node_id" where
  "primary_side d x = (if d = Target then conn_target x else conn_source x)"

text \<open>The local ID of a typed node ID, and the generator inside an iterator.\<close>

fun node_number :: "circuit_node_id \<Rightarrow> nat" where
  "node_number (CircuitNodeId p n) = n"

fun generator_of :: "connections \<Rightarrow> generator" where
  "generator_of (AddCircuitIds g) = g"
| "generator_of (AddEdgeIds g) = g"
| "generator_of (OmitEdgeCount g) = g"

text \<open>
  What the uniqueness mode maintains between two advances, over the connections emitted
  so far: they have distinct secondary nodes, all recorded as used (the last one is
  recorded at the next advance), and distinct primary nodes, none of which is still to
  visit.
\<close>

definition unique_invariant :: "connections \<Rightarrow> connection list \<Rightarrow> bool" where
  "unique_invariant it xs =
     (case generator_of it of
        Created s t u sh \<Rightarrow> u \<and> xs = []
      | Suspended st used keys key_node_id conn_node_id rows \<Rightarrow>
          s_unique st
          \<and> distinct (map (\<lambda>x. node_number (secondary_side (s_direction st) x)) xs)
          \<and> distinct (map (\<lambda>x. node_number (primary_side (s_direction st) x)) xs)
          \<and> set (map (\<lambda>x. node_number (secondary_side (s_direction st) x)) xs)
               \<subseteq> insert conn_node_id used
          \<and> set (map (\<lambda>x. node_number (primary_side (s_direction st) x)) xs) \<inter> set keys = {}
          \<and> distinct keys
      | Finished \<Rightarrow> False)"

section \<open>Running the monad\<close>

lemma ret_apply: "ret x w = (Inr x, w)"
  by (simp add: ret_def)

lemma raise_apply: "raise e w = (Inl e, w)"
  by (simp add: raise_def)

lemma lift_apply: "lift r w = (r, w)"
  by (simp add: lift_def)

lemma backend_apply: "backend c v w = (Inr v, w\<lparr>calls := calls w @ [c]\<rparr>)"
  by (simp add: backend_def)

lemma bind_apply:
  "bind m f w = (case m w of (Inl e, w') \<Rightarrow> (Inl e, w') | (Inr x, w') \<Rightarrow> f x w')"
  by (simp add: bind_def)

lemmas io_simps = ret_apply raise_apply lift_apply backend_apply bind_apply

lemma flatten_range: "flatten [(a, b)] = [a..<b]"
  by (simp add: flatten_def)

lemma ensure_ids_NdArray: "ensure_ids (NdArray ws) = Inr ws"
  by (simp add: ensure_ids_def)

lemma unat_of_nat_below:
  assumes "k < unat (s :: 64 word)"
  shows "unat (of_nat k :: 64 word) = k"
proof -
  have "unat s < 2 ^ 64" using unsigned_less [of s] by simp
  with assms show ?thesis by (simp add: unat_of_nat)
qed

lemma sint_of_int_in_int64: "in_int64 i \<Longrightarrow> sint (of_int i :: 64 word) = i"
  unfolding in_int64_def by (simp add: sint_sbintrunc' signed_take_bit_int_eq_self)

lemma u_resolve_None: "u_resolve_node_ids f None = Inr None"
  by (simp add: u_resolve_node_ids_def)

section \<open>The calls of \<open>ids\<close> and \<open>get\<close> inside the filter\<close>

lemma ids_of_None_is_ids: "ids_of_None pop w = ids pop qm perm GNone None None r w"
  by (simp add: ids_of_None_def ids_def ids_result_def io_simps ensure_ids_NdArray)

lemma get_of_ndarray_is_get:
  "get_of_ndarray pop chunk properties w = get pop qm perm (GNdArray chunk) properties w"
  by (simp add: get_of_ndarray_def get_def ids_def ids_result_def io_simps ensure_ids_NdArray)

section \<open>The ID dtype\<close>

text \<open>
  What the conversion to int64 does at the ends of its range, on the example population:
  an integer of Python that does not fit is refused, and a negative one is an ID as any
  other; the number \<open>2 ^ 63\<close> of a uint64 array is returned as the ID \<open>- (2 ^ 63)\<close>;
  sampling turns a list into an array first, so a list of integers from \<open>2 ^ 63\<close> on is
  a uint64 array by then, and a list with a tuple after an integer fails there.
\<close>

lemma ids_int_too_large:
  "ids example_population example_query_module example_perm (GSequence [PlainInt (2 ^ 63)])
     None None True example_world = (Inl OverflowError, example_world)"
  by (simp add: ids_def ids_result_def check_typed_list_def io_simps ensure_ids_def
      in_int64_def)

lemma ids_negative_int:
  "ids example_population example_query_module example_perm (GSequence [PlainInt (- 1)])
     None None True example_world = (Inr [- 1], example_world)
   \<and> sint (- 1 :: 64 word) = - 1"
  by (simp add: ids_def ids_result_def check_typed_list_def io_simps ensure_ids_def
      in_int64_def)

lemma ids_uint64_array:
  "ids example_population example_query_module example_perm (GNdArray [2 ^ 63])
     None None True example_world = (Inr [2 ^ 63], example_world)
   \<and> unat (2 ^ 63 :: 64 word) = 2 ^ 63 \<and> sint (2 ^ 63 :: 64 word) = - (2 ^ 63)"
  by (simp add: ids_def ids_result_def io_simps ensure_ids_def)

lemma ids_sampled_int_too_large:
  "fst (ids example_population example_query_module example_perm
     (GSequence [PlainInt (2 ^ 63)]) None (Some 1) True example_world) = Inr [2 ^ 63]"
  by (simp add: ids_def ids_result_def check_typed_list_def io_simps ensure_ids_def
      in_int64_def random_choice_def np_array_def choice_def permutation_def example_perm_def
      example_world_def)

lemma ids_sampled_mixed_list:
  "fst (ids example_population example_query_module example_perm
     (GSequence [PlainInt 1, CircuitEdgeId ''default'' 2]) (Some 1) (Some 1) True
     example_world) = Inl NumpyValueError"
  by (simp add: ids_def ids_result_def check_typed_list_def io_simps random_choice_def
      np_array_def)

section \<open>All edge IDs\<close>

lemma all_ids_unat:
  "map unat (map of_nat [0..<size_population pop] :: id_array) = [0..<size_population pop]"
  unfolding size_population_def by (rule nth_equalityI) (simp_all add: unat_of_nat_below)

lemma all_ids_sint:
  assumes "size_population pop \<le> 2 ^ 63"
  shows "map sint (map of_nat [0..<size_population pop] :: id_array)
           = map int [0..<size_population pop]"
proof (rule nth_equalityI)
  fix i
  assume "i < length (map sint (map of_nat [0..<size_population pop] :: id_array))"
  then have "in_int64 (int i)"
    using assms by (simp add: in_int64_def)
  then have "sint (of_nat i :: 64 word) = int i"
    using sint_of_int_in_int64 [of "int i"] by simp
  with \<open>i < length (map sint (map of_nat [0..<size_population pop] :: id_array))\<close>
  show "map sint (map of_nat [0..<size_population pop] :: id_array) ! i
          = map int [0..<size_population pop] ! i"
    by simp
qed simp

text \<open>
  Claim C8. For every population, \<open>ids(None)\<close> with no sample and no limit returns exactly
  \<open>size\<close> elements, the values 0 .. size - 1 in ascending order: the ID at each position
  is the 64-bit integer of that position, and read as the unsigned numbers of libsonata
  the IDs are 0 .. size - 1. (Read as int64 they are 0 .. size - 1 too for every size up
  to \<open>2 ^ 63\<close>, lemma \<open>all_ids_sint\<close>; a numpy array has fewer elements than that.) The call
  makes one backend call, \<open>select_all\<close>.
\<close>

theorem ids_None_all:
  "ids pop qm perm GNone None None r w
     = (Inr (map of_nat [0..<size_population pop]), w\<lparr>calls := calls w @ [SelectAll]\<rparr>)
   \<and> map unat (map of_nat [0..<size_population pop] :: id_array) = [0..<size_population pop]"
  by (simp add: ids_def ids_result_def io_simps sonata_select_all_def flatten_range
      ensure_ids_NdArray ensure_ids_uint64_def all_ids_unat del: map_map)

lemma example_size: "[0..<size_population example_population] = [0, 1, 2, 3]"
  by (simp add: size_population_def example_population_def upt_rec)

theorem ids_None_all_witness:
  "fst (ids example_population example_query_module example_perm GNone None None True
     example_world) = Inr [0, 1, 2, 3]"
  using ids_None_all [of example_population example_query_module example_perm True
      example_world]
  by (simp add: example_size)

section \<open>When the errors of the connection iterator are raised\<close>

text \<open>
  Claim C10. \<open>iter_connections\<close> with source and target both None returns an iterator
  without raising, in each of the three annotation modes, and the error Either source
  or target should be specified is raised by the first advance of that iterator, in
  whatever world it happens. With \<open>return_edge_ids\<close> and \<open>return_edge_count\<close> both set the
  call itself raises, whatever source and target are.
\<close>

theorem iter_connections_raises_lazily:
  "iter_connections pop None None u sh False False w
     = (Inr (OmitEdgeCount (Created None None u sh)), w)
   \<and> iter_connections pop None None u sh True False w
     = (Inr (AddEdgeIds (Created None None u sh)), w)
   \<and> iter_connections pop None None u sh False True w
     = (Inr (AddCircuitIds (Created None None u sh)), w)
   \<and> connections_next pop perm (OmitEdgeCount (Created None None u sh)) w'
     = (Inl EitherSourceOrTarget, w')
   \<and> connections_next pop perm (AddEdgeIds (Created None None u sh)) w'
     = (Inl EitherSourceOrTarget, w')
   \<and> connections_next pop perm (AddCircuitIds (Created None None u sh)) w'
     = (Inl EitherSourceOrTarget, w')
   \<and> iter_connections pop source target u sh True True w = (Inl MutuallyExclusive, w)"
  by (simp add: iter_connections_def u_iter_connections_def u_resolve_None io_simps
      u_iter_connections_next_def u_is_empty_def u_optimal_direction_def)

section \<open>Lists that mix typed and untyped IDs\<close>

lemma ids_of_population_plain:
  "PlainInt n \<in> set vs \<Longrightarrow> ids_of_population nm vs = Inl AttributeError"
proof (induction vs)
  case Nil
  then show ?case by simp
next
  case (Cons v vs)
  show ?case
  proof (cases v)
    case (PlainInt m)
    then show ?thesis by simp
  next
    case (CircuitEdgeId p i)
    with Cons show ?thesis by simp
  qed
qed

text \<open>
  Claim C4, as amended. \<open>ids\<close> looks at the first element of a list only: when it is a
  CircuitEdgeId and the list holds a plain integer anywhere after it, the call fails
  with All values from a list must be of type int or CircuitEdgeId, whatever \<open>limit\<close>
  and \<open>sample\<close> are, and before any backend call.
\<close>

theorem ids_typed_first_mixed:
  assumes "PlainInt n \<in> set vs"
  shows "ids pop qm perm (GSequence (CircuitEdgeId p i # vs)) limit sample r w
           = (Inl InvalidIdType, w)"
proof -
  have "ids_of_population (name pop) (CircuitEdgeId p i # vs) = Inl AttributeError"
    using assms by (simp add: ids_of_population_plain)
  then show ?thesis
    by (simp add: ids_def ids_result_def check_typed_list_def io_simps)
qed

theorem ids_typed_first_mixed_witness:
  "PlainInt 7 \<in> set [CircuitEdgeId ''default'' 1, PlainInt 7]
   \<and> ids example_population example_query_module example_perm
        (GSequence [CircuitEdgeId ''default'' 0, CircuitEdgeId ''default'' 1, PlainInt 7])
        None None True example_world = (Inl InvalidIdType, example_world)"
  using ids_typed_first_mixed [of 7 "[CircuitEdgeId ''default'' 1, PlainInt 7]"
    example_population example_query_module example_perm "''default''" 0 None None True
    example_world]
  by simp

text \<open>
  A mixed list whose first element is a plain integer is not checked by \<open>ids\<close>: it
  reaches the conversion to an ID array, which fails inside numpy with another error.
\<close>

theorem ids_untyped_first_mixed_counterexample:
  "ids example_population example_query_module example_perm
     (GSequence [PlainInt 1, CircuitEdgeId ''default'' 2]) None None True example_world
     = (Inl NumpyValueError, example_world)
   \<and> NumpyValueError \<noteq> InvalidIdType"
  by (simp add: ids_def ids_result_def check_typed_list_def io_simps ensure_ids_def)

section \<open>Properties of no edges\<close>

text \<open>
  Claim C5, as amended. When the \<open>edge_ids\<close> argument of \<open>get\<close> resolves to no edge ID, a
  scalar property name gives a Series of that name with no rows and dtype float64,
  whatever the property is, and a list of names gives a DataFrame with no rows whose
  columns are the requested names in order (of dtype object). Nothing is raised and the
  backend is not read.
\<close>

theorem get_empty:
  assumes "ids pop qm perm grp None None True w = (Inr [], w')"
  shows "get pop qm perm grp (Prop p) w = (Inr (Series p Float64 [] []), w')
       \<and> get pop qm perm grp (Props ps) w
           = (Inr (DataFrame (map (\<lambda>p. (p, (ObjectDtype, []))) ps) []), w')"
  using assms
  by (simp add: get_def bind_apply ret_apply u_get_def Selection_of_ids_def Selection_def
      flatten_def ensure_ids_uint64_def)

theorem get_empty_witness:
  "ids example_population example_query_module example_perm (GNdArray []) None None True
     example_world = (Inr [], example_world)
   \<and> get example_population example_query_module example_perm (GNdArray []) (Prop ''delay'')
        example_world = (Inr (Series ''delay'' Float64 [] []), example_world)
   \<and> get example_population example_query_module example_perm (GNdArray [])
        (Props [''delay'', ''syn_weight'']) example_world
       = (Inr (DataFrame [(''delay'', (ObjectDtype, [])), (''syn_weight'', (ObjectDtype, []))] []),
          example_world)"
proof -
  have h: "ids example_population example_query_module example_perm (GNdArray []) None None
             True example_world = (Inr [], example_world)"
    by (simp add: ids_def ids_result_def io_simps ensure_ids_NdArray)
  from get_empty [OF h, of "''delay''" "[''delay'', ''syn_weight'']"] h
  show ?thesis by simp
qed

lemma example_Selection0: "Selection [0] = [(0, 1)]"
  by (simp add: Selection_def)

text \<open>
  The dtype of an empty Series is not the dtype of its property: the source node ID
  column has the ID dtype, in a non-empty result and in \<open>property_dtypes\<close>, and the empty
  Series for it is float64.
\<close>

theorem get_empty_dtype_counterexample:
  "get example_population example_query_module example_perm (GSequence [])
     (Prop SOURCE_NODE_ID) example_world
     = (Inr (Series SOURCE_NODE_ID Float64 [] []), example_world)
   \<and> fst (get example_population example_query_module example_perm (GSequence [PlainInt 0])
       (Prop SOURCE_NODE_ID) example_world)
     = Inr (Series SOURCE_NODE_ID IDS_DTYPE [0] [IdCell 0])
   \<and> map_sum id (\<lambda>m. m SOURCE_NODE_ID)
        (fst (property_dtypes example_population example_query_module example_perm
          example_world)) = Inr (Some IDS_DTYPE)
   \<and> Float64 \<noteq> IDS_DTYPE"
proof -
  note run = get_def ids_def ids_result_def check_typed_list_def io_simps u_get_def
    flatten_def ensure_ids_array_def ensure_ids_def ensure_ids_uint64_def in_int64_def
    Selection_of_ids_def
  have empty: "get example_population example_query_module example_perm (GSequence [])
     (Prop SOURCE_NODE_ID) example_world
     = (Inr (Series SOURCE_NODE_ID Float64 [] []), example_world)"
    by (simp add: run Selection_def)
  have one: "fst (get example_population example_query_module example_perm
       (GSequence [PlainInt 0]) (Prop SOURCE_NODE_ID) example_world)
     = Inr (Series SOURCE_NODE_ID IDS_DTYPE [0] [IdCell 0])"
    by (simp add: run example_Selection0 u_get_property_def example_population_def
        example_sources_def)
  have all: "map_sum id (\<lambda>m. m SOURCE_NODE_ID)
        (fst (property_dtypes example_population example_query_module example_perm
          example_world)) = Inr (Some IDS_DTYPE)"
    by (simp add: property_dtypes_def run example_Selection0 u_get_property_def
        example_population_def example_sources_def example_targets_def
        property_names_list_def add_dynamic_prefix_def DYNAMICS_PREFIX_def SOURCE_NODE_ID_def
        TARGET_NODE_ID_def attribute_names_set_def dynamics_params_names_def split_str.simps)
  from empty one all show ?thesis by simp
qed

section \<open>Sampling, then limiting\<close>

lemma valid_perm_mset: "valid_perm perm \<Longrightarrow> perm g n = (p, g') \<Longrightarrow> mset p = mset [0..<n]"
  unfolding valid_perm_def by (metis fst_conv)

lemma mset_map_nth_perm:
  assumes "mset p = mset [0..<length a]"
  shows "mset (map (\<lambda>i. a ! i) p) = mset a"
proof -
  have "mset (map (\<lambda>i. a ! i) p) = image_mset (\<lambda>i. a ! i) (mset [0..<length a])"
    using assms by (metis mset_map)
  also have "\<dots> = mset (map (\<lambda>i. a ! i) [0..<length a])"
    by simp
  also have "\<dots> = mset a"
    by (simp add: map_nth)
  finally show ?thesis .
qed

lemma mset_map_nth_take:
  assumes "mset p = mset [0..<length a]"
  shows "mset (map (\<lambda>i. a ! i) (take k p)) \<subseteq># mset a"
proof -
  have "mset (take k p) \<subseteq># mset p"
    by (metis append_take_drop_id mset_append mset_subset_eq_add_left)
  then have "image_mset (\<lambda>i. a ! i) (mset (take k p)) \<subseteq># image_mset (\<lambda>i. a ! i) (mset p)"
    by (rule image_mset_subseteq_mono)
  then show ?thesis
    using mset_map_nth_perm [OF assms] by simp
qed

lemma shuffle_mset:
  assumes "valid_perm perm" and "shuffle perm xs w = (Inr ys, w')"
  shows "mset ys = mset xs \<and> calls w' = calls w"
proof -
  obtain p g' where pg: "perm (rng w) (length xs) = (p, g')"
    by (cases "perm (rng w) (length xs)")
  have "mset p = mset [0..<length xs]"
    using valid_perm_mset [OF assms(1) pg] .
  then have "mset (map (\<lambda>i. xs ! i) p) = mset xs"
    by (rule mset_map_nth_perm)
  then show ?thesis
    using assms(2) pg by (auto simp: shuffle_def permutation_def io_simps)
qed

lemma choice_spec:
  assumes "valid_perm perm" and "0 \<le> k" and "k \<le> int (length a)"
  shows "\<exists>ys w'. choice perm a k w = (Inr ys, w') \<and> length ys = nat k
           \<and> mset ys \<subseteq># mset a \<and> calls w' = calls w"
proof -
  obtain p g' where pg: "perm (rng w) (length a) = (p, g')"
    by (cases "perm (rng w) (length a)")
  have mp: "mset p = mset [0..<length a]"
    using valid_perm_mset [OF assms(1) pg] .
  then have "length p = length a"
    by (metis length_upt mset_eq_length minus_nat.diff_0)
  then have len: "length (map (\<lambda>i. a ! i) (take (nat k) p)) = nat k"
    using assms(2,3) by simp
  have "choice perm a k w = (Inr (map (\<lambda>i. a ! i) (take (nat k) p)), w\<lparr>rng := g'\<rparr>)"
    using assms(2,3) pg by (simp add: choice_def permutation_def io_simps)
  then show ?thesis
    using len mset_map_nth_take [OF mp, of "nat k"] by simp
qed

lemma mset_sub_same_length:
  "mset ys \<subseteq># mset xs \<Longrightarrow> length ys = length xs \<Longrightarrow> mset ys = mset xs"
  by (metis mset_subset_size size_mset subset_mset.less_le nat_neq_iff)

lemma nat_min_length: "nat (min n (int k)) = min (nat n) k"
  by (simp add: min_def) linarith

lemma drawn_empty: "drawn perm g sample [] = []"
  by (simp add: drawn_def split: option.splits)

lemma choice_drawn:
  assumes "0 \<le> n"
  shows "choice perm xs (min n (int (length xs))) w
           = (Inr (drawn perm (rng w) (Some n) xs),
              w\<lparr>rng := snd (perm (rng w) (length xs))\<rparr>)"
  using assms
  by (cases "perm (rng w) (length xs)")
    (simp add: choice_def permutation_def io_simps drawn_def nat_min_length)

lemma sampled_drawn:
  assumes "valid_perm perm" and "nonneg sample"
  shows "sampled sample xs (drawn perm g sample xs)"
proof (cases sample)
  case None
  then show ?thesis by (simp add: sampled_def drawn_def)
next
  case (Some n)
  with assms(2) have n0: "0 \<le> n" by (simp add: nonneg_def)
  obtain p g' where pg: "perm g (length xs) = (p, g')"
    by (cases "perm g (length xs)")
  let ?k = "min (nat n) (length xs)"
  let ?ys = "map (\<lambda>i. xs ! i) (take ?k p)"
  have mp: "mset p = mset [0..<length xs]"
    using valid_perm_mset [OF assms(1) pg] .
  then have "length p = length xs"
    by (metis length_upt mset_eq_length minus_nat.diff_0)
  then have len: "length ?ys = ?k" by simp
  have sub: "mset ?ys \<subseteq># mset xs"
    using mset_map_nth_take [OF mp] .
  have "mset ?ys = mset xs" if "int (length xs) \<le> n"
  proof -
    from that n0 have "?k = length xs" by linarith
    with len have "length ?ys = length xs" by simp
    with sub show ?thesis by (rule mset_sub_same_length)
  qed
  with len sub show ?thesis
    using Some pg by (simp add: sampled_def drawn_def)
qed

lemma ensure_ids_length: "ensure_ids a = Inr xs \<Longrightarrow> len_values a = length xs"
  by (cases a) (auto simp: ensure_ids_def split: if_splits)

lemma ensure_ids_slice:
  assumes "ensure_ids a = Inr xs"
  shows "ensure_ids (slice_values a l) = Inr (slice_to xs l)"
proof (cases a)
  case (NdArray ws)
  with assms show ?thesis by (simp add: ensure_ids_def)
next
  case (PyList vs)
  with assms have t: "\<not> list_ex is_typed vs"
    and i: "list_all (\<lambda>v. in_int64 (plain_int v)) vs"
    and xs: "xs = map (\<lambda>v. of_int (plain_int v)) vs"
    by (auto simp: ensure_ids_def split: if_splits)
  have "\<not> list_ex is_typed (take k vs)" for k
    using t by (auto simp: list_ex_iff dest: in_set_takeD)
  moreover have "list_all (\<lambda>v. in_int64 (plain_int v)) (take k vs)" for k
    using i by (auto simp: list_all_iff dest: in_set_takeD)
  ultimately show ?thesis
    using PyList xs by (simp add: ensure_ids_def slice_to_def take_map)
qed

lemma random_choice_ids:
  assumes "ensure_ids a = Inr xs"
  shows "random_choice perm a n = choice_values perm (NdArray xs) n"
proof (cases a)
  case (NdArray ws)
  with assms show ?thesis by (simp add: random_choice_def ensure_ids_def)
next
  case (PyList vs)
  with assms have "\<not> list_ex is_typed vs"
    and "list_all (\<lambda>v. in_int64 (plain_int v)) vs"
    and "xs = map (\<lambda>v. of_int (plain_int v)) vs"
    by (auto simp: ensure_ids_def split: if_splits)
  then have "np_array vs = Inr (NdArray xs)"
    by (simp add: np_array_def list_all_iff)
  with PyList show ?thesis
    by (simp add: random_choice_def bind_def lift_def)
qed

text \<open>
  Claim C6, as amended. Whatever the shape of \<open>group\<close>, once the if/elif chain has
  produced a \<open>result\<close> that holds the IDs \<open>xs\<close>, and for a \<open>sample\<close> and a \<open>limit\<close> that
  are not negative, \<open>ids\<close> returns the first \<open>limit\<close> elements of the sample that the
  random source draws from the whole of \<open>xs\<close>: sampling comes first, limiting second.
  The sample has \<open>min(sample, len(xs))\<close> elements from distinct positions of \<open>xs\<close>, and
  all of them when \<open>sample\<close> is at least the length; without \<open>sample\<close> it is \<open>xs\<close>.
  Post-processing makes no backend call.
\<close>

theorem ids_sample_then_limit:
  assumes "valid_perm perm"
    and "ids_result pop qm grp r w = (Inr result, w1)"
    and "ensure_ids result = Inr xs"
    and "nonneg sample" and "nonneg limit"
  shows "\<exists>w2. ids pop qm perm grp limit sample r w
                 = (Inr (limited limit (drawn perm (rng w1) sample xs)), w2)
           \<and> sampled sample xs (drawn perm (rng w1) sample xs)
           \<and> calls w2 = calls w1"
proof -
  let ?ys = "drawn perm (rng w1) sample xs"
  have "\<exists>w2. (case sample of
             None \<Rightarrow> ret result
           | Some n \<Rightarrow>
               if len_values result > 0
               then random_choice perm result (min n (int (len_values result)))
               else ret result) w1 = (Inr (if sample = None \<or> xs = [] then result else NdArray ?ys), w2)
         \<and> calls w2 = calls w1"
  proof (cases sample)
    case None
    then show ?thesis by (simp add: ret_apply)
  next
    case (Some n)
    with assms(4) have n0: "0 \<le> n" by (simp add: nonneg_def)
    show ?thesis
    proof (cases "xs = []")
      case True
      with Some show ?thesis
        by (simp add: ret_apply ensure_ids_length [OF assms(3)])
    next
      case False
      with Some show ?thesis
        by (simp add: ensure_ids_length [OF assms(3)] random_choice_ids [OF assms(3)]
            bind_apply ret_apply choice_drawn [OF n0])
    qed
  qed
  then obtain w2 where s: "(case sample of
             None \<Rightarrow> ret result
           | Some n \<Rightarrow>
               if len_values result > 0
               then random_choice perm result (min n (int (len_values result)))
               else ret result) w1 = (Inr (if sample = None \<or> xs = [] then result else NdArray ?ys), w2)"
    and c: "calls w2 = calls w1"
    by blast
  have e: "ensure_ids (if sample = None \<or> xs = [] then result else NdArray ?ys) = Inr ?ys"
  proof (cases "sample = None \<or> xs = []")
    case True
    then have "?ys = xs" by (auto simp: drawn_def split: option.splits)
    with True assms(3) show ?thesis by simp
  next
    case False
    then have "(if sample = None \<or> xs = [] then result else NdArray ?ys) = NdArray ?ys"
      by (rule if_not_P)
    then show ?thesis by (simp only: ensure_ids_NdArray)
  qed
  have "ensure_ids (case limit of
            None \<Rightarrow> (if sample = None \<or> xs = [] then result else NdArray ?ys)
          | Some l \<Rightarrow> slice_values (if sample = None \<or> xs = [] then result else NdArray ?ys) l)
          = Inr (limited limit ?ys)"
  proof (cases limit)
    case None
    with e show ?thesis by (simp add: limited_def)
  next
    case (Some l)
    with assms(5) have "0 \<le> l" by (simp add: nonneg_def)
    with Some ensure_ids_slice [OF e, of l] show ?thesis
      by (simp add: limited_def slice_to_def)
  qed
  then have "ids pop qm perm grp limit sample r w = (Inr (limited limit ?ys), w2)"
    using assms(2) s by (simp add: ids_def bind_apply lift_apply)
  with sampled_drawn [OF assms(1,4)] c show ?thesis by blast
qed

lemma mset_rotate_same: "mset (rotate k xs) = mset xs"
proof (induction k)
  case 0
  then show ?case by simp
next
  case (Suc k)
  have "mset (rotate1 ys) = mset ys" for ys :: "'a list"
    by (cases ys) simp_all
  with Suc show ?case by simp
qed

lemma valid_example_perm: "valid_perm example_perm"
  unfolding valid_perm_def example_perm_def by (simp only: fst_conv mset_rotate_same) simp

lemma example_rotate: "rotate 1 [0..<5] = [1, 2, 3, 4, 0]"
  by (simp add: upt_rec)

lemma example_drawn:
  "drawn example_perm (rng example_world) (Some 3) [5, 6, 7, 8, 9 :: 64 word] = [6, 7, 8]"
  by (simp add: drawn_def example_perm_def example_world_def example_rotate)

theorem ids_sample_then_limit_witness:
  "valid_perm example_perm
   \<and> ids_result example_population example_query_module (GNdArray [5, 6, 7, 8, 9]) True
        example_world = (Inr (NdArray [5, 6, 7, 8, 9]), example_world)
   \<and> ensure_ids (NdArray [5, 6, 7, 8, 9]) = Inr [5, 6, 7, 8, 9]
   \<and> nonneg (Some 3) \<and> nonneg (Some 2)
   \<and> (\<exists>w2. ids example_population example_query_module example_perm
          (GNdArray [5, 6, 7, 8, 9]) (Some 2) (Some 3) True example_world = (Inr [6, 7], w2)
        \<and> sampled (Some 3) [5, 6, 7, 8, 9 :: 64 word] [6, 7, 8]
        \<and> calls w2 = calls example_world)"
proof -
  have h1: "valid_perm example_perm"
    by (rule valid_example_perm)
  have h2: "ids_result example_population example_query_module (GNdArray [5, 6, 7, 8, 9]) True
              example_world = (Inr (NdArray [5, 6, 7, 8, 9]), example_world)"
    by (simp add: ids_result_def io_simps)
  have h3: "ensure_ids (NdArray [5, 6, 7, 8, 9]) = Inr [5, 6, 7, 8, 9]"
    by (rule ensure_ids_NdArray)
  have h4: "nonneg (Some 3)" and h5: "nonneg (Some 2)"
    by (simp_all add: nonneg_def)
  have "\<exists>w2. ids example_population example_query_module example_perm
          (GNdArray [5, 6, 7, 8, 9]) (Some 2) (Some 3) True example_world = (Inr [6, 7], w2)
        \<and> sampled (Some 3) [5, 6, 7, 8, 9 :: 64 word] [6, 7, 8]
        \<and> calls w2 = calls example_world"
    using ids_sample_then_limit [OF h1 h2 h3 h4 h5]
    by (simp add: example_drawn limited_def)
  then show ?thesis using h1 h2 h3 h4 h5 by (intro conjI)
qed

text \<open>
  The counts are not checked. A negative \<open>limit\<close> does not give the first \<open>limit\<close>
  elements, and not all of them either: \<open>result[:limit]\<close> drops elements from the end. A
  negative \<open>sample\<close> on a result that is not empty draws nothing: \<open>np.random.choice\<close>
  raises a ValueError.
\<close>

theorem ids_negative_counts_counterexample:
  "ids example_population example_query_module example_perm (GNdArray [5, 6, 7])
     (Some (- 1)) None True example_world = (Inr [5, 6], example_world)
   \<and> limited (Some (- 1)) [5, 6, 7 :: 64 word] = []
   \<and> [5, 6] \<noteq> [5, 6, 7 :: 64 word]
   \<and> ids example_population example_query_module example_perm (GNdArray [5, 6, 7])
       None (Some (- 1)) True example_world = (Inl NumpyValueError, example_world)"
  by (simp add: ids_def ids_result_def io_simps ensure_ids_NdArray slice_to_def limited_def
      random_choice_def choice_def)

section \<open>Queries that name unknown properties\<close>

lemma split_str_nonempty: "split_str sep acc s \<noteq> []"
  by (induction sep acc s rule: split_str.induct) (subst split_str.simps, simp)

lemma split_str_prefixed:
  assumes "sep \<noteq> []"
  shows "\<exists>n rest. split_str sep [] (sep @ m) = [] # n # rest"
proof -
  have "split_str sep [] (sep @ m) = [] # split_str sep [] m"
    using assms by (subst split_str.simps) simp
  moreover obtain n rest where "split_str sep [] m = n # rest"
    using split_str_nonempty [of sep "[]" m] by (cases "split_str sep [] m") auto
  ultimately show ?thesis by simp
qed

lemma u_get_property_known:
  assumes "prop \<in> property_names pop"
  shows "\<exists>c w'. u_get_property pop prop sel w = (Inr c, w')"
proof -
  consider "prop = SOURCE_NODE_ID" | "prop = TARGET_NODE_ID"
    | "prop \<in> attribute_names_set pop" | "prop \<in> dynamics_params_names pop"
    using assms by (auto simp: property_names_def topology_property_names_def)
  then show ?thesis
  proof cases
    case 4
    then obtain m where "prop = DYNAMICS_PREFIX @ m"
      by (auto simp: dynamics_params_names_def add_dynamic_prefix_def)
    moreover have "DYNAMICS_PREFIX \<noteq> []" by (simp add: DYNAMICS_PREFIX_def)
    ultimately obtain n rest where "split_str DYNAMICS_PREFIX [] prop = [] # n # rest"
      using split_str_prefixed by blast
    with 4 show ?thesis
      by (simp add: u_get_property_def io_simps)
  qed (simp_all add: u_get_property_def io_simps)
qed

lemma fill_columns_known:
  "set ps \<subseteq> property_names pop \<Longrightarrow> \<exists>cols' w'. fill_columns pop sel ps cols w = (Inr cols', w')"
proof (induction ps arbitrary: cols w)
  case Nil
  then show ?case by (simp add: io_simps)
next
  case (Cons p ps)
  then obtain c w1 where "u_get_property pop p sel w = (Inr c, w1)"
    using u_get_property_known [of p pop sel w] by auto
  moreover obtain cols' w' where
    "fill_columns pop sel ps (set_column p c cols) w1 = (Inr cols', w')"
    using Cons by (meson list.set_intros(2) subset_code(1))
  ultimately show ?case by (simp add: io_simps)
qed

lemma u_get_known:
  assumes "set (requested properties) \<subseteq> property_names pop"
  shows "\<exists>t w'. u_get pop sel properties w = (Inr t, w')
           \<and> table_index t = ensure_ids_uint64 (flatten sel)"
proof (cases properties)
  case NoProps
  then show ?thesis by (simp add: u_get_def io_simps)
next
  case (Prop p)
  then obtain c w1 where "u_get_property pop p sel w = (Inr c, w1)"
    using assms u_get_property_known [of p pop sel w] by auto
  with Prop show ?thesis by (simp add: u_get_def io_simps Let_def)
next
  case (Props ps)
  then obtain cols w1 where "fill_columns pop sel ps [] w = (Inr cols, w1)"
    using assms fill_columns_known [of ps pop sel "[]" w] by auto
  with Props show ?thesis by (simp add: u_get_def io_simps Let_def)
qed

lemma known_filter:
  "filter (\<lambda>p. p \<notin> set (filter (\<lambda>p. p \<notin> S) xs)) xs = filter (\<lambda>p. p \<in> S) xs"
  by (rule filter_cong) auto

lemma lenient_unfold:
  "u_edge_ids_by_filter pop qm q False w
     = bind (ids_of_None pop) (\<lambda>ids. filter_chunks pop qm q (known_properties pop qm q)
         (array_split ids (1 + length ids div 100000000)) []) w"
  unfolding u_edge_ids_by_filter_def Let_def known_filter known_properties_def by simp

lemma flatten_append: "flatten (a @ b) = flatten a @ flatten b"
  by (simp add: flatten_def)

lemma flatten_from_values:
  "lo \<le> hi \<Longrightarrow> flatten (from_values acc (lo, hi) vs) = flatten acc @ [lo..<hi] @ vs"
proof (induction vs arbitrary: acc lo hi)
  case Nil
  then show ?case by (simp add: flatten_append flatten_range)
next
  case (Cons v vs)
  show ?case
  proof (cases "v = hi")
    case True
    with Cons.IH [of lo "Suc hi" acc] Cons.prems show ?thesis by simp
  next
    case False
    with Cons.IH [of v "Suc v" "if lo < hi then acc @ [(lo, hi)] else acc"] Cons.prems
    show ?thesis by (simp add: flatten_append flatten_range)
  qed
qed

lemma flatten_Selection: "flatten (Selection vs) = vs"
  using flatten_from_values [of 0 0 "[]" vs] by (simp add: Selection_def flatten_def)

lemma edge_ids_of_chunk: "ensure_ids_uint64 (flatten (Selection_of_ids chunk)) = chunk"
  by (simp add: Selection_of_ids_def flatten_Selection ensure_ids_uint64_def map_idI)

lemma u_get_property_read:
  assumes "prop \<in> property_names pop"
  shows "u_get_property pop prop sel w
           = (Inr (snd (property_read pop prop sel)),
              w\<lparr>calls := calls w @ [fst (property_read pop prop sel)]\<rparr>)"
proof -
  consider "prop = SOURCE_NODE_ID" | "prop = TARGET_NODE_ID"
    | "prop \<in> attribute_names_set pop" | "prop \<in> dynamics_params_names pop"
    using assms by (auto simp: property_names_def topology_property_names_def)
  then show ?thesis
  proof cases
    case 4
    then obtain m where "prop = DYNAMICS_PREFIX @ m"
      by (auto simp: dynamics_params_names_def add_dynamic_prefix_def)
    moreover have "DYNAMICS_PREFIX \<noteq> []" by (simp add: DYNAMICS_PREFIX_def)
    ultimately obtain n rest where "split_str DYNAMICS_PREFIX [] prop = [] # n # rest"
      using split_str_prefixed by blast
    with 4 show ?thesis
      by (simp add: u_get_property_def property_read_def io_simps ensure_ids_array_def)
  qed (simp_all add: u_get_property_def property_read_def io_simps ensure_ids_array_def)
qed

lemma set_column_new: "p \<notin> fst ` set cols \<Longrightarrow> set_column p c cols = cols @ [(p, c)]"
  by (induction cols) auto

lemma fill_columns_read:
  assumes "set ps \<subseteq> property_names pop" and "distinct ps"
    and "set ps \<inter> fst ` set cols = {}"
  shows "fill_columns pop sel ps cols (w :: 'g world)
           = (Inr (cols @ map (\<lambda>p. (p, snd (property_read pop p sel))) ps),
              w\<lparr>calls := calls w @ map (\<lambda>p. fst (property_read pop p sel)) ps\<rparr>)"
  using assms
proof (induction ps arbitrary: cols w)
  case Nil
  then show ?case by (simp add: io_simps)
next
  case (Cons p ps)
  let ?c = "snd (property_read pop p sel)"
  have new: "set_column p ?c cols = cols @ [(p, ?c)]"
    using Cons.prems(3) by (simp add: set_column_new)
  have disj: "set ps \<inter> fst ` set (cols @ [(p, ?c)]) = {}"
    using Cons.prems(2,3) by auto
  have "fill_columns pop sel ps (cols @ [(p, ?c)]) w1
          = (Inr ((cols @ [(p, ?c)]) @ map (\<lambda>p. (p, snd (property_read pop p sel))) ps),
             w1\<lparr>calls := calls w1 @ map (\<lambda>p. fst (property_read pop p sel)) ps\<rparr>)"
    for w1 :: "'g world"
    using Cons.IH [of "cols @ [(p, ?c)]" w1] Cons.prems(1,2) disj by simp
  with Cons.prems(1) new show ?case
    by (simp add: bind_apply u_get_property_read)
qed

lemma get_of_ndarray_materialized:
  assumes "set known \<subseteq> property_names pop" and "distinct known"
  shows "get_of_ndarray pop chunk (Props known) w
           = (Inr (materialized pop known chunk),
              w\<lparr>calls := calls w @ reads pop known chunk\<rparr>)"
proof (cases "chunk = []")
  case True
  then show ?thesis
    by (simp add: get_of_ndarray_def u_get_def edge_ids_of_chunk materialized_def reads_def
        io_simps)
next
  case False
  with fill_columns_read [OF assms, of "[]" "Selection_of_ids chunk" w] show ?thesis
    by (simp add: get_of_ndarray_def u_get_def edge_ids_of_chunk materialized_def reads_def
        io_simps)
qed

lemma filter_chunks_materialized:
  assumes "set known \<subseteq> property_names pop" and "distinct known"
  shows "filter_chunks pop qm q known chunks res w
           = (Inr (res @ concat (map (\<lambda>chunk. mask_select chunk
                      (resolve_ids qm (materialized pop known chunk) (name pop) (ptype pop) q))
                    chunks)),
              w\<lparr>calls := calls w @ concat (map (reads pop known) chunks)\<rparr>)"
proof (induction chunks arbitrary: res w)
  case Nil
  then show ?case by (simp add: io_simps)
next
  case (Cons chunk chunks)
  then show ?case
    by (simp add: bind_apply get_of_ndarray_materialized [OF assms])
qed

lemma lenient_selected:
  "u_edge_ids_by_filter pop qm q False w
     = (Inr (selected_by_query pop qm q), w\<lparr>calls := calls w @ query_calls pop qm q\<rparr>)"
proof -
  have "set (known_properties pop qm q) \<subseteq> property_names pop"
    and "distinct (known_properties pop qm q)"
    by (auto simp: known_properties_def)
  note f = filter_chunks_materialized [OF this]
  show ?thesis
    unfolding lenient_unfold
    by (simp add: bind_apply ids_of_None_def backend_apply f selected_by_query_def
        query_calls_def query_chunks_def Let_def sonata_select_all_def flatten_range
        ensure_ids_uint64_def)
qed


lemma example_property_names:
  "property_names example_population
     = {''syn_weight'', ''delay'', ''@dynamics:param1'', ''@source_node'', ''@target_node''}"
  by (auto simp: property_names_def attribute_names_set_def dynamics_params_names_def
      topology_property_names_def add_dynamic_prefix_def DYNAMICS_PREFIX_def SOURCE_NODE_ID_def
      TARGET_NODE_ID_def example_population_def)

lemma example_fields:
  "name example_population = ''default''"
  "ptype example_population = ''chemical''"
  "source_name example_population = ''default''"
  "target_name example_population = ''default''"
  "sonata_size example_population = 4"
  "sonata_attribute_names example_population = [''syn_weight'', ''delay'']"
  "sonata_dynamics_attribute_names example_population = [''param1'']"
  "sonata_afferent_edges example_population ns
     = Selection (filter (\<lambda>e. example_targets ! e \<in> set ns) [0, 1, 2, 3])"
  "sonata_efferent_edges example_population ns
     = Selection (filter (\<lambda>e. example_sources ! e \<in> set ns) [0, 1, 2, 3])"
  "sonata_connecting_edges example_population ss ts
     = Selection (filter (\<lambda>e. example_sources ! e \<in> set ss \<and> example_targets ! e \<in> set ts)
         [0, 1, 2, 3])"
  "sonata_source_nodes example_population sel = map (\<lambda>e. example_sources ! e) (flatten sel)"
  "sonata_target_nodes example_population sel = map (\<lambda>e. example_targets ! e) (flatten sel)"
  "sonata_get_attribute example_population p sel
     = (Float64, map (\<lambda>e. Cell (Suc e)) (flatten sel))"
  "sonata_get_dynamics_attribute example_population p sel
     = (Float64, map (\<lambda>e. Cell (2 * e)) (flatten sel))"
  "source_ids example_population = example_node_ids"
  "target_ids example_population = example_node_ids"
  by (simp_all add: example_population_def)

lemma upt_0_4: "[0..<4] = [0, 1, 2, 3]"
  by (simp add: upt_rec numeral_eq_Suc)

lemma example_chunks: "query_chunks example_population = [[0, 1, 2, 3]]"
  by (simp add: query_chunks_def example_size array_split_def)

lemma example_known:
  "known_properties example_population example_query_module
     [(''delay'', Cell 2), (''bogus'', Cell 0)] = [''delay'']"
  "known_properties example_population example_query_module [(''delay'', Cell 2)] = [''delay'']"
  by (simp_all add: known_properties_def example_property_names example_query_module_def)

lemma example_materialized:
  "materialized example_population [''delay''] [0, 1, 2, 3]
     = DataFrame [(''delay'', (Float64, [Cell 1, Cell 2, Cell 3, Cell 4]))] [0, 1, 2, 3]"
  by (simp add: materialized_def property_read_def SOURCE_NODE_ID_def TARGET_NODE_ID_def
      attribute_names_set_def example_fields Selection_of_ids_def flatten_Selection)

lemma example_reads:
  "reads example_population [''delay''] [0, 1, 2, 3] = [GetAttribute ''delay'' [(0, 4)]]"
  by (simp add: reads_def property_read_def SOURCE_NODE_ID_def TARGET_NODE_ID_def
      attribute_names_set_def example_fields Selection_of_ids_def Selection_def)

lemma example_selected:
  "selected_by_query example_population example_query_module
     [(''delay'', Cell 2), (''bogus'', Cell 0)] = []"
  "selected_by_query example_population example_query_module [(''delay'', Cell 2)] = [1]"
  unfolding selected_by_query_def example_chunks example_known
  by (simp_all add: example_materialized example_query_module_def example_test_def
      mask_select_def upt_0_4)

text \<open>
  The mask of the example query module at work: a query on a known property selects the
  edges that pass its test.
\<close>

lemma strict_as_lenient:
  assumes "set (get_properties qm q) \<subseteq> property_names pop"
  shows "u_edge_ids_by_filter pop qm q True w = u_edge_ids_by_filter pop qm q False w"
proof -
  have e: "filter (\<lambda>p. p \<notin> property_names pop) (remdups (get_properties qm q)) = []"
    using assms by (auto simp: filter_empty_conv)
  show ?thesis
    unfolding u_edge_ids_by_filter_def Let_def e by simp
qed

lemma example_known_query:
  "ids example_population example_query_module example_perm (GMapping [(''delay'', Cell 2)])
     None None True example_world
     = (Inr [1], example_world\<lparr>calls := [SelectAll, GetAttribute ''delay'' [(0, 4)]]\<rparr>)"
proof -
  have "set (get_properties example_query_module [(''delay'', Cell 2)])
          \<subseteq> property_names example_population"
    by (simp add: example_property_names example_query_module_def)
  note s = strict_as_lenient [OF this]
  have "ids example_population example_query_module example_perm
          (GMapping [(''delay'', Cell 2)]) None None True example_world
        = (Inr (selected_by_query example_population example_query_module
                  [(''delay'', Cell 2)]),
           example_world\<lparr>calls := calls example_world
              @ query_calls example_population example_query_module [(''delay'', Cell 2)]\<rparr>)"
    by (simp add: ids_def ids_result_def io_simps s lenient_selected ensure_ids_NdArray)
  then show ?thesis
    by (simp add: example_selected query_calls_def example_chunks example_known example_reads
        example_world_def)
qed


section \<open>Edges along a pathway\<close>

lemma u_get_property_outcome:
  "u_get_property pop p sel w = (r, w') \<Longrightarrow>
   (\<exists>cs. calls w' = calls w @ cs) \<and> r \<noteq> Inl EitherSourceOrTarget"
  by (auto simp: u_get_property_def io_simps split: if_splits list.splits)

lemma fill_columns_outcome:
  "fill_columns pop sel ps cols w = (r, w') \<Longrightarrow>
   (\<exists>cs. calls w' = calls w @ cs) \<and> r \<noteq> Inl EitherSourceOrTarget"
proof (induction ps arbitrary: cols w)
  case Nil
  then show ?case by (auto simp: io_simps)
next
  case (Cons p ps)
  obtain r1 w1 where g: "u_get_property pop p sel w = (r1, w1)"
    by (cases "u_get_property pop p sel w")
  note o = u_get_property_outcome [OF g]
  show ?case
  proof (cases r1)
    case (Inl e)
    with Cons.prems g o show ?thesis by (auto simp: io_simps)
  next
    case (Inr c)
    with Cons.prems g have "fill_columns pop sel ps (set_column p c cols) w1 = (r, w')"
      by (simp add: io_simps)
    from Cons.IH [OF this] o show ?thesis by auto
  qed
qed

lemma u_get_outcome:
  assumes "u_get pop sel properties w = (r, w')"
  shows "(\<exists>cs. calls w' = calls w @ cs) \<and> r \<noteq> Inl EitherSourceOrTarget"
proof (cases properties)
  case NoProps
  with assms show ?thesis by (auto simp: u_get_def io_simps)
next
  case (Prop p)
  obtain r1 w1 where g: "u_get_property pop p sel w = (r1, w1)"
    by (cases "u_get_property pop p sel w")
  from u_get_property_outcome [OF g] assms Prop g show ?thesis
    by (cases r1) (auto simp: u_get_def io_simps Let_def split: if_splits)
next
  case (Props ps)
  obtain r1 w1 where g: "fill_columns pop sel ps [] w = (r1, w1)"
    by (cases "fill_columns pop sel ps [] w")
  from fill_columns_outcome [OF g] assms Props g show ?thesis
    by (cases r1) (auto simp: u_get_def io_simps Let_def split: if_splits)
qed

lemma u_resolve_cases:
  "u_resolve_node_ids f grp = Inr None \<and> grp = None
   \<or> (\<exists>ns. u_resolve_node_ids f grp = Inr (Some ns) \<and> grp \<noteq> None)
   \<or> (\<exists>msg. u_resolve_node_ids f grp = Inl (NodeError msg) \<and> grp \<noteq> None)"
  by (auto simp: u_resolve_node_ids_def split: option.splits sum.splits)

lemma u_get_not_either: "fst (u_get pop sel properties w) \<noteq> Inl EitherSourceOrTarget"
  using u_get_outcome [of pop sel properties w "fst (u_get pop sel properties w)"
    "snd (u_get pop sel properties w)"]
  by simp

lemma pathway_edges_error:
  "(fst (pathway_edges pop source target properties w) = Inl EitherSourceOrTarget)
     = (source = None \<and> target = None)"
proof (cases "source = None \<and> target = None")
  case True
  then show ?thesis by (simp add: pathway_edges_def io_simps)
next
  case False
  have "fst (pathway_edges pop source target properties w) \<noteq> Inl EitherSourceOrTarget"
    using False u_resolve_cases [of "source_ids pop" source]
      u_resolve_cases [of "target_ids pop" target]
    by (auto simp: pathway_edges_def io_simps select_edges_def u_get_not_either
        split: prod.splits sum.splits)
  with False show ?thesis by simp
qed

lemma pathway_edges_returns:
  assumes "u_resolve_node_ids (source_ids pop) source = Inr source_node_ids"
    and "u_resolve_node_ids (target_ids pop) target = Inr target_node_ids"
    and "source \<noteq> None \<or> target \<noteq> None"
    and "set (requested properties) \<subseteq> property_names pop"
  shows "\<exists>tbl w' c cs. pathway_edges pop source target properties w = (Inr tbl, w')
           \<and> pathway_call source_node_ids target_node_ids = Some c
           \<and> calls w' = calls w @ c # cs
           \<and> table_index tbl
               = ensure_ids_uint64 (flatten (pathway_selection pop source_node_ids target_node_ids))"
proof -
  obtain c where c: "pathway_call source_node_ids target_node_ids = Some c"
    using assms(1,2,3)
    by (auto simp: pathway_call_def u_resolve_node_ids_def split: option.splits sum.splits)
  let ?sel = "pathway_selection pop source_node_ids target_node_ids"
  let ?w1 = "w\<lparr>calls := calls w @ [c]\<rparr>"
  let ?tail = "if truthy properties then u_get pop ?sel properties
               else ret (IdArray (ensure_ids_uint64 (flatten ?sel)))"
  have p: "pathway_edges pop source target properties w = ?tail ?w1"
    using assms(1,2,3) c
    by (auto simp: pathway_edges_def io_simps select_edges_def pathway_call_def
        pathway_selection_def u_resolve_node_ids_def split: option.splits sum.splits)
  obtain tbl w' where g: "u_get pop ?sel properties ?w1 = (Inr tbl, w')"
    and ti: "table_index tbl = ensure_ids_uint64 (flatten ?sel)"
    using u_get_known [OF assms(4), of ?sel ?w1] by blast
  obtain cs where cs: "calls w' = calls ?w1 @ cs"
    using u_get_outcome [OF g] by blast
  show ?thesis
  proof (cases "truthy properties")
    case True
    with p g ti cs c show ?thesis by simp
  next
    case False
    with p c show ?thesis by (simp add: io_simps)
  qed
qed

text \<open>
  Claim C9, as amended. \<open>pathway_edges\<close> raises Either source or target should be
  specified if and only if source and target are both None. When at least one side is
  given and resolves, the first backend call is the primitive that matches the sides
  (afferent-only, efferent-only or connecting edges), and the call returns a result
  indexed by the edges of that selection, provided every requested property is a
  property of the population.
\<close>

theorem pathway_edges_sides:
  "(fst (pathway_edges pop source target properties w) = Inl EitherSourceOrTarget)
     = (source = None \<and> target = None)
   \<and> (u_resolve_node_ids (source_ids pop) source = Inr source_node_ids
      \<and> u_resolve_node_ids (target_ids pop) target = Inr target_node_ids
      \<and> (source \<noteq> None \<or> target \<noteq> None)
      \<and> set (requested properties) \<subseteq> property_names pop
      \<longrightarrow> (\<exists>tbl w' c cs. pathway_edges pop source target properties w = (Inr tbl, w')
           \<and> pathway_call source_node_ids target_node_ids = Some c
           \<and> calls w' = calls w @ c # cs
           \<and> table_index tbl
               = ensure_ids_uint64
                   (flatten (pathway_selection pop source_node_ids target_node_ids))))"
  using pathway_edges_error [of pop source target properties w]
    pathway_edges_returns [of pop source source_node_ids target target_node_ids properties w]
  by blast

lemma example_resolve:
  "u_resolve_node_ids example_node_ids (Some (NodeId n)) = Inr (Some [n])"
  "u_resolve_node_ids example_node_ids (Some (NodeIds ns)) = Inr (Some ns)"
  by (simp_all add: u_resolve_node_ids_def example_node_ids_def)

theorem pathway_edges_sides_witness:
  "u_resolve_node_ids (source_ids example_population) (Some (NodeId 0)) = Inr (Some [0])
   \<and> u_resolve_node_ids (target_ids example_population) None = Inr None
   \<and> set (requested (Prop ''delay'')) \<subseteq> property_names example_population
   \<and> fst (pathway_edges example_population (Some (NodeId 0)) None (Prop ''delay'')
        example_world) \<noteq> Inl EitherSourceOrTarget
   \<and> (\<exists>tbl w' c cs. pathway_edges example_population (Some (NodeId 0)) None (Prop ''delay'')
          example_world = (Inr tbl, w')
        \<and> pathway_call (Some [0]) None = Some c
        \<and> calls w' = calls example_world @ c # cs
        \<and> table_index tbl
            = ensure_ids_uint64 (flatten (pathway_selection example_population (Some [0]) None)))
   \<and> fst (pathway_edges example_population None None (Prop ''delay'') example_world)
       = Inl EitherSourceOrTarget"
proof -
  have h1: "u_resolve_node_ids (source_ids example_population) (Some (NodeId 0))
              = Inr (Some [0])"
    by (simp add: example_fields example_resolve)
  have h2: "u_resolve_node_ids (target_ids example_population) None = Inr None"
    by (simp add: u_resolve_None)
  have h3: "set (requested (Prop ''delay'')) \<subseteq> property_names example_population"
    by (simp add: example_property_names)
  from pathway_edges_sides [of example_population "Some (NodeId 0)" None "Prop ''delay''"
      example_world "Some [0]" None]
    pathway_edges_sides [of example_population None None "Prop ''delay''" example_world]
  show ?thesis using h1 h2 h3 by simp
qed

text \<open>
  With a side given, \<open>pathway_edges\<close> does not always return: a property name the
  population does not have raises No such property.
\<close>

theorem pathway_edges_unknown_property_counterexample:
  "fst (pathway_edges example_population (Some (NodeId 0)) None (Prop ''bogus'') example_world)
     = Inl (NoSuchProperty ''bogus'')"
  by (simp add: pathway_edges_def io_simps example_fields example_resolve u_resolve_None
      select_edges_def
      example_sources_def Selection_def flatten_def u_get_def Let_def ensure_ids_uint64_def
      u_get_property_def SOURCE_NODE_ID_def TARGET_NODE_ID_def attribute_names_set_def
      dynamics_params_names_def add_dynamic_prefix_def DYNAMICS_PREFIX_def)

section \<open>Connections of no nodes\<close>

lemma created_empty_next:
  assumes "u_is_empty s \<or> u_is_empty t"
  shows "u_iter_connections_next pop perm (Created s t u sh) w = (Inr (None, Finished), w)"
  using assms by (simp add: u_iter_connections_next_def io_simps)

lemma emitted_stuck:
  assumes "emitted pop perm it xs it'"
    and "\<And>w. \<exists>it''. connections_next pop perm it w = (Inr (None, it''), w)"
  shows "xs = [] \<and> it' = it"
  using assms(1)
proof (induction rule: emitted.induct)
  case emitted_none
  show ?case by simp
next
  case (emitted_next xs it' w x it'' w')
  then have "connections_next pop perm it w = (Inr (Some x, it''), w')" by simp
  with assms(2) [of w] show ?case by auto
qed

text \<open>
  Claim C3. When source or target resolves to an empty array (not None),
  \<open>iter_connections\<close> returns an iterator whose first advance ends the iteration, so it
  never emits a connection. Neither the call nor the advance changes the world: no
  backend call is logged and the random source is not drawn from.
\<close>

theorem iter_connections_empty:
  assumes "u_resolve_node_ids (source_ids pop) source = Inr source_node_ids"
    and "u_resolve_node_ids (target_ids pop) target = Inr target_node_ids"
    and "u_is_empty source_node_ids \<or> u_is_empty target_node_ids"
    and "\<not> (return_edge_ids \<and> return_edge_count)"
  shows "\<exists>it it'. iter_connections pop source target u sh return_edge_ids return_edge_count w
             = (Inr it, w)
           \<and> connections_next pop perm it w' = (Inr (None, it'), w')
           \<and> (\<forall>xs it''. emitted pop perm it xs it'' \<longrightarrow> xs = [])"
proof -
  let ?g = "Created source_node_ids target_node_ids u sh"
  note n = created_empty_next [OF assms(3), of pop perm u sh]
  define it where "it = (if return_edge_count then AddCircuitIds ?g
                         else if return_edge_ids then AddEdgeIds ?g else OmitEdgeCount ?g)"
  have a: "iter_connections pop source target u sh return_edge_ids return_edge_count w
             = (Inr it, w)"
    using assms(1,2,4)
    by (simp add: iter_connections_def u_iter_connections_def io_simps it_def)
  have b: "\<exists>it'. connections_next pop perm it v = (Inr (None, it'), v)" for v
    using n by (simp add: it_def io_simps wrap_def)
  have c: "\<forall>xs it''. emitted pop perm it xs it'' \<longrightarrow> xs = []"
    using emitted_stuck [of pop perm it] b by blast
  from a b [of w'] c show ?thesis by blast
qed

theorem iter_connections_empty_witness:
  "u_resolve_node_ids (source_ids example_population) (Some (NodeIds [])) = Inr (Some [])
   \<and> u_resolve_node_ids (target_ids example_population) None = Inr None
   \<and> (u_is_empty (Some ([]::nat list)) \<or> u_is_empty (None::nat list option))
   \<and> \<not> (False \<and> True)
   \<and> (\<exists>it it'. iter_connections example_population (Some (NodeIds [])) None False False
          False True example_world = (Inr it, example_world)
        \<and> connections_next example_population example_perm it example_world
            = (Inr (None, it'), example_world)
        \<and> (\<forall>xs it''. emitted example_population example_perm it xs it'' \<longrightarrow> xs = []))"
proof -
  have h1: "u_resolve_node_ids (source_ids example_population) (Some (NodeIds []))
              = Inr (Some [])"
    by (simp add: example_fields example_resolve)
  have h2: "u_resolve_node_ids (target_ids example_population) None = Inr None"
    by (simp add: u_resolve_None)
  have h3: "u_is_empty (Some ([]::nat list)) \<or> u_is_empty (None::nat list option)"
    by (simp add: u_is_empty_def)
  have h4: "\<not> (False \<and> True)" by simp
  from iter_connections_empty [OF h1 h2 h3 h4, of False False example_world example_perm
      example_world]
  show ?thesis using h1 h2 h3 by simp
qed

section \<open>The direction of the iteration\<close>

lemma median_small:
  "median [a] = Some (of_nat a)"
  "median [a, b] = Some ((of_nat a + of_nat b) / 2)"
  "median [a, b, c] = Some (of_nat (max (min a b) (min (max a b) c)))"
  by (auto simp: median_def Let_def max_def min_def insort_key.simps)

lemma map_io_backend:
  "map_io (\<lambda>n. bind (backend (tag n) (prim n)) (\<lambda>sel. ret (length sel))) ns w
     = (Inr (map (\<lambda>n. length (prim n)) ns), w\<lparr>calls := calls w @ map tag ns\<rparr>)"
proof (induction ns arbitrary: w)
  case Nil
  show ?case by (simp add: io_simps)
next
  case (Cons n ns)
  let ?f = "\<lambda>n. bind (backend (tag n) (prim n)) (\<lambda>sel. ret (length sel))"
  let ?w = "w\<lparr>calls := calls w @ [tag n]\<rparr>"
  have s: "?f n w = (Inr (length (prim n)), ?w)"
    by (simp add: io_simps)
  have "map_io ?f (n # ns) w = bind (map_io ?f ns) (\<lambda>ys. ret (length (prim n) # ys)) ?w"
    by (simp only: map_io.simps bind_apply [of "?f n"] s) simp
  also have "\<dots> = (Inr (length (prim n) # map (\<lambda>n. length (prim n)) ns),
                    ?w\<lparr>calls := calls ?w @ map tag ns\<rparr>)"
    by (simp only: bind_apply [of "map_io ?f ns"] Cons.IH) (simp add: ret_apply)
  finally show ?case by simp
qed

lemma estimate_range_size:
  assumes "valid_perm perm" and "ns \<noteq> []"
  shows "\<exists>ss w'. u_estimate_range_size perm (\<lambda>n. backend (tag n) (prim n)) ns 3 w
             = (Inr (median (map (\<lambda>n. length (prim n)) ss)), w')
           \<and> length ss = min 3 (length ns) \<and> mset ss \<subseteq># mset ns
           \<and> calls w' = calls w @ map tag ss"
proof (cases "length ns > 3")
  case True
  then have k: "(0::int) \<le> 3" "3 \<le> int (length ns)" by simp_all
  obtain ss w1 where ch: "choice perm ns 3 w = (Inr ss, w1)" and l: "length ss = nat 3"
    and m: "mset ss \<subseteq># mset ns" and c: "calls w1 = calls w"
    using choice_spec [OF assms(1) k, of w] by blast
  have "u_estimate_range_size perm (\<lambda>n. backend (tag n) (prim n)) ns 3 w
          = (Inr (median (map (\<lambda>n. length (prim n)) ss)), w1\<lparr>calls := calls w1 @ map tag ss\<rparr>)"
    using True ch assms(2)
    by (simp add: u_estimate_range_size_def bind_apply ret_apply map_io_backend)
  with l m c True show ?thesis by auto
next
  case False
  then have "u_estimate_range_size perm (\<lambda>n. backend (tag n) (prim n)) ns 3 w
          = (Inr (median (map (\<lambda>n. length (prim n)) ns)), w\<lparr>calls := calls w @ map tag ns\<rparr>)"
    using assms(2) by (simp add: u_estimate_range_size_def bind_apply ret_apply map_io_backend)
  with False show ?thesis by auto
qed

text \<open>
  Claim C2. With source unconstrained the direction is target, with target unconstrained
  it is source, and no backend call is made. With both sides given (and not empty, which
  \<open>_iter_connections\<close> has excluded before), up to 3 node IDs \<open>ss\<close> of the source side and
  up to 3 node IDs \<open>ts\<close> of the target side are sampled, each at distinct positions; the
  backend is asked for \<open>efferent_edges\<close> of each of \<open>ss\<close> and \<open>afferent_edges\<close> of each of
  \<open>ts\<close>, and the direction is source exactly when the median number of ranges over
  \<open>ss\<close> is smaller than the one over \<open>ts\<close>, target otherwise.
\<close>

theorem optimal_direction:
  "u_optimal_direction pop perm None (Some t) w = (Inr Target, w)
   \<and> u_optimal_direction pop perm (Some s) None w = (Inr Source, w)
   \<and> (valid_perm perm \<and> s \<noteq> [] \<and> t \<noteq> [] \<longrightarrow>
        (\<exists>ss ts w'.
           u_optimal_direction pop perm (Some s) (Some t) w
             = (Inr (if median_less
                          (median (map (\<lambda>n. length (sonata_efferent_edges pop [n])) ss))
                          (median (map (\<lambda>n. length (sonata_afferent_edges pop [n])) ts))
                     then Source else Target), w')
           \<and> length ss = min 3 (length s) \<and> mset ss \<subseteq># mset s
           \<and> length ts = min 3 (length t) \<and> mset ts \<subseteq># mset t
           \<and> calls w' = calls w @ map (\<lambda>n. EfferentEdges [n]) ss
                                 @ map (\<lambda>n. AfferentEdges [n]) ts))"
proof -
  have a: "u_optimal_direction pop perm None (Some t) w = (Inr Target, w)"
    by (simp add: u_optimal_direction_def io_simps)
  have b: "u_optimal_direction pop perm (Some s) None w = (Inr Source, w)"
    by (simp add: u_optimal_direction_def io_simps)
  have c: "\<exists>ss ts w'.
           u_optimal_direction pop perm (Some s) (Some t) w
             = (Inr (if median_less
                          (median (map (\<lambda>n. length (sonata_efferent_edges pop [n])) ss))
                          (median (map (\<lambda>n. length (sonata_afferent_edges pop [n])) ts))
                     then Source else Target), w')
           \<and> length ss = min 3 (length s) \<and> mset ss \<subseteq># mset s
           \<and> length ts = min 3 (length t) \<and> mset ts \<subseteq># mset t
           \<and> calls w' = calls w @ map (\<lambda>n. EfferentEdges [n]) ss
                                 @ map (\<lambda>n. AfferentEdges [n]) ts"
    if v: "valid_perm perm" and s: "s \<noteq> []" and t: "t \<noteq> []"
  proof -
    obtain ss w1 where e1: "u_estimate_range_size perm (population_efferent_edges pop) s 3 w
             = (Inr (median (map (\<lambda>n. length (sonata_efferent_edges pop [n])) ss)), w1)"
      and l1: "length ss = min 3 (length s)" and m1: "mset ss \<subseteq># mset s"
      and c1: "calls w1 = calls w @ map (\<lambda>n. EfferentEdges [n]) ss"
      using estimate_range_size [OF v s, of "\<lambda>n. EfferentEdges [n]"
          "\<lambda>n. sonata_efferent_edges pop [n]" w]
      unfolding population_efferent_edges_def by blast
    obtain ts w2 where e2: "u_estimate_range_size perm (population_afferent_edges pop) t 3 w1
             = (Inr (median (map (\<lambda>n. length (sonata_afferent_edges pop [n])) ts)), w2)"
      and l2: "length ts = min 3 (length t)" and m2: "mset ts \<subseteq># mset t"
      and c2: "calls w2 = calls w1 @ map (\<lambda>n. AfferentEdges [n]) ts"
      using estimate_range_size [OF v t, of "\<lambda>n. AfferentEdges [n]"
          "\<lambda>n. sonata_afferent_edges pop [n]" w1]
      unfolding population_afferent_edges_def by blast
    have "u_optimal_direction pop perm (Some s) (Some t) w
             = (Inr (if median_less
                          (median (map (\<lambda>n. length (sonata_efferent_edges pop [n])) ss))
                          (median (map (\<lambda>n. length (sonata_afferent_edges pop [n])) ts))
                     then Source else Target), w2)"
      using e1 e2 by (simp add: u_optimal_direction_def bind_apply ret_apply)
    with l1 m1 l2 m2 c1 c2 show ?thesis by auto
  qed
  from a b c show ?thesis by blast
qed

lemma example_direction:
  "fst (u_optimal_direction example_population example_perm (Some [0, 3]) (Some [1, 2])
     example_world) = Inr Source"
  by (simp add: u_optimal_direction_def u_estimate_range_size_def io_simps
      population_efferent_edges_def population_afferent_edges_def example_fields
      example_sources_def example_targets_def Selection_def median_small median_less_def)

theorem optimal_direction_witness:
  "valid_perm example_perm \<and> [0, 3] \<noteq> ([]::nat list) \<and> [1, 2] \<noteq> ([]::nat list)
   \<and> u_optimal_direction example_population example_perm None (Some [1, 2]) example_world
       = (Inr Target, example_world)
   \<and> u_optimal_direction example_population example_perm (Some [0, 3]) None example_world
       = (Inr Source, example_world)
   \<and> fst (u_optimal_direction example_population example_perm (Some [0, 3]) (Some [1, 2])
        example_world) = Inr Source
   \<and> (\<exists>ss ts w'.
         u_optimal_direction example_population example_perm (Some [0, 3]) (Some [1, 2])
           example_world
           = (Inr (if median_less
                        (median (map (\<lambda>n. length (sonata_efferent_edges example_population [n]))
                           ss))
                        (median (map (\<lambda>n. length (sonata_afferent_edges example_population [n]))
                           ts))
                   then Source else Target), w')
         \<and> length ss = min 3 (length [0, 3::nat]) \<and> mset ss \<subseteq># mset [0, 3]
         \<and> length ts = min 3 (length [1, 2::nat]) \<and> mset ts \<subseteq># mset [1, 2]
         \<and> calls w' = calls example_world @ map (\<lambda>n. EfferentEdges [n]) ss
                               @ map (\<lambda>n. AfferentEdges [n]) ts)"
  using optimal_direction [of example_population example_perm "[1, 2]" example_world "[0, 3]"]
    valid_example_perm example_direction
  by simp

section \<open>Unique node IDs\<close>

lemma next_row_fresh:
  "next_row u used rows = Some (r, rest) \<Longrightarrow> u \<Longrightarrow> fst r \<notin> used"
  by (induction rows) (auto split: if_splits)

lemma visit_primary_yield:
  "visit_primary pop perm st used keys w = (Inr (Some y, g'), w') \<Longrightarrow>
   \<exists>pre k keys' r rest. keys = pre @ k # keys' \<and> g' = Suspended st used keys' k (fst r) rest
     \<and> y = emit (s_direction st) k r \<and> (s_unique st \<longrightarrow> fst r \<notin> used)"
proof (induction keys arbitrary: w)
  case Nil
  then show ?case by (simp add: io_simps)
next
  case (Cons key keys)
  obtain r1 w1 where c: "get_connected_node_ids pop (s_direction st) key w = (r1, w1)"
    by (cases "get_connected_node_ids pop (s_direction st) key w")
  show ?case
  proof (cases r1)
    case (Inl e)
    with Cons.prems c show ?thesis by (simp add: io_simps)
  next
    case (Inr connected)
    let ?m = "let rows = connected_rows connected (s_secondary st)
              in if s_shuffle st then shuffle perm rows else ret rows"
    obtain r2 w2 where s: "?m w1 = (r2, w2)" by (cases "?m w1")
    show ?thesis
    proof (cases r2)
      case (Inl e)
      with Cons.prems c Inr s show ?thesis by (simp add: io_simps)
    next
      case rows: (Inr rows)
      show ?thesis
      proof (cases "next_row (s_unique st) used rows")
        case None
        with Cons.prems c Inr s rows
        have "visit_primary pop perm st used keys w2 = (Inr (Some y, g'), w')"
          by (simp add: io_simps)
        from Cons.IH [OF this] obtain pre k keys' r rest where
          "keys = pre @ k # keys'" "g' = Suspended st used keys' k (fst r) rest"
          "y = emit (s_direction st) k r" "s_unique st \<longrightarrow> fst r \<notin> used"
          by blast
        then have "key # keys = (key # pre) @ k # keys'" by simp
        with \<open>g' = _\<close> \<open>y = _\<close> \<open>s_unique st \<longrightarrow> _\<close> show ?thesis by blast
      next
        case (Some a)
        obtain r rest where a: "a = (r, rest)" by (cases a)
        with Some Cons.prems c Inr s rows
        have "g' = Suspended st used keys key (fst r) rest" "y = emit (s_direction st) key r"
          by (simp_all add: io_simps)
        moreover have "s_unique st \<longrightarrow> fst r \<notin> used"
          using next_row_fresh Some a by blast
        moreover have "key # keys = [] @ key # keys" by simp
        ultimately show ?thesis by blast
      qed
    qed
  qed
qed

lemma distinct_np_unique: "distinct (np_unique xs)"
  by (simp add: np_unique_def)

lemma created_yield:
  assumes "u_iter_connections_next pop perm (Created s t u sh) w = (Inr (Some y, g'), w')"
    and "valid_perm perm"
  shows "\<exists>st pre k keys' r rest. g' = Suspended st {} keys' k (fst r) rest
           \<and> distinct (pre @ k # keys') \<and> s_unique st = u \<and> y = emit (s_direction st) k r"
proof -
  from assms(1) have ne: "\<not> (u_is_empty s \<or> u_is_empty t)"
    by (auto simp: u_iter_connections_next_def io_simps split: if_splits)
  obtain r1 w1 where d: "u_optimal_direction pop perm s t w = (r1, w1)"
    by (cases "u_optimal_direction pop perm s t w")
  show ?thesis
  proof (cases r1)
    case (Inl e)
    with assms(1) ne d show ?thesis
      by (simp add: u_iter_connections_next_def io_simps)
  next
    case (Inr dir)
    let ?p = "if dir = Target then t else s"
    let ?st = "\<lparr>s_direction = dir,
                s_secondary = map_option np_unique (if dir = Target then s else t),
                s_unique = u, s_shuffle = sh\<rparr>"
    show ?thesis
    proof (cases ?p)
      case None
      with assms(1) ne d Inr show ?thesis
        by (simp add: u_iter_connections_next_def io_simps Let_def)
    next
      case (Some primary)
      let ?m = "if sh then shuffle perm (np_unique primary) else ret (np_unique primary)"
      obtain r2 w2 where m: "?m w1 = (r2, w2)" by (cases "?m w1")
      show ?thesis
      proof (cases r2)
        case (Inl e)
        with assms(1) ne d Inr Some m show ?thesis
          by (simp add: u_iter_connections_next_def io_simps Let_def)
      next
        case keys: (Inr keys)
        have "mset keys = mset (np_unique primary)"
        proof (cases sh)
          case True
          with m keys have "shuffle perm (np_unique primary) w1 = (Inr keys, w2)" by simp
          from shuffle_mset [OF assms(2) this] show ?thesis by simp
        next
          case False
          with m keys show ?thesis by (simp add: io_simps)
        qed
        then have dk: "distinct keys"
          using distinct_np_unique [of primary] by (metis mset_eq_imp_distinct_iff)
        from assms(1) ne d Inr Some m keys
        have "visit_primary pop perm ?st {} keys w2 = (Inr (Some y, g'), w')"
          by (simp add: u_iter_connections_next_def io_simps Let_def)
        from visit_primary_yield [OF this] obtain pre k keys' r rest where
          "keys = pre @ k # keys'" "g' = Suspended ?st {} keys' k (fst r) rest"
          "y = emit (s_direction ?st) k r"
          by blast
        with dk show ?thesis
          by (intro exI [of _ ?st] exI [of _ pre] exI [of _ k] exI [of _ keys'] exI [of _ r]
              exI [of _ rest]) simp
      qed
    qed
  qed
qed

lemma suspended_yield:
  assumes "u_iter_connections_next pop perm (Suspended st used keys key conn rows) w
             = (Inr (Some y, g'), w')"
    and "s_unique st"
  shows "\<exists>pre k keys' r rest. keys = pre @ k # keys'
           \<and> g' = Suspended st (insert conn used) keys' k (fst r) rest
           \<and> y = emit (s_direction st) k r \<and> fst r \<notin> insert conn used"
proof -
  from assms have "visit_primary pop perm st (insert conn used) keys w = (Inr (Some y, g'), w')"
    by (simp add: u_iter_connections_next_def)
  from visit_primary_yield [OF this] assms(2) show ?thesis by blast
qed

lemma wrap_yield:
  assumes "bind (u_iter_connections_next pop perm g) (wrap con f) w = (Inr (Some x, it''), w')"
    and "\<And>y v r v'. f y v = (Inr r, v') \<Longrightarrow>
           node_number (conn_source r) = fst y \<and> node_number (conn_target r) = fst (snd y)"
  shows "\<exists>y g' w1. u_iter_connections_next pop perm g w = (Inr (Some y, g'), w1)
           \<and> it'' = con g'
           \<and> node_number (conn_source x) = fst y \<and> node_number (conn_target x) = fst (snd y)"
proof -
  obtain r1 w1 where n: "u_iter_connections_next pop perm g w = (r1, w1)"
    by (cases "u_iter_connections_next pop perm g w")
  show ?thesis
  proof (cases r1)
    case (Inl e)
    with assms(1) n show ?thesis by (simp add: io_simps)
  next
    case (Inr a)
    obtain yo g' where a: "a = (yo, g')" by (cases a)
    show ?thesis
    proof (cases yo)
      case None
      with assms(1) n Inr a show ?thesis by (simp add: io_simps wrap_def)
    next
      case (Some y)
      obtain r2 w2 where f: "f y w1 = (r2, w2)" by (cases "f y w1")
      show ?thesis
      proof (cases r2)
        case (Inl e)
        with assms(1) n Inr a Some f show ?thesis by (simp add: io_simps wrap_def)
      next
        case r: (Inr r)
        with assms(1) n Inr a Some f have "x = r" "it'' = con g'"
          by (simp_all add: io_simps wrap_def)
        with assms(2) [of y w1 r w2] f r n Inr a Some show ?thesis by simp
      qed
    qed
  qed
qed

lemma add_circuit_ids_numbers:
  "u_add_circuit_ids pop y v = (Inr r, v') \<Longrightarrow>
   node_number (conn_source r) = fst y \<and> node_number (conn_target r) = fst (snd y)"
  by (auto simp: u_add_circuit_ids_def io_simps conn_source_def conn_target_def)

lemma add_edge_ids_numbers:
  "u_add_edge_ids pop y v = (Inr r, v') \<Longrightarrow>
   node_number (conn_source r) = fst y \<and> node_number (conn_target r) = fst (snd y)"
  by (auto simp: u_add_edge_ids_def io_simps conn_source_def conn_target_def
      split: prod.splits sum.splits)

lemma omit_edge_count_numbers:
  "u_omit_edge_count pop y v = (Inr r, v') \<Longrightarrow>
   node_number (conn_source r) = fst y \<and> node_number (conn_target r) = fst (snd y)"
  by (auto simp: u_omit_edge_count_def io_simps conn_source_def conn_target_def)

lemma connections_next_yield:
  assumes "connections_next pop perm it w = (Inr (Some x, it''), w')"
  shows "\<exists>y g' w1. u_iter_connections_next pop perm (generator_of it) w = (Inr (Some y, g'), w1)
           \<and> generator_of it'' = g'
           \<and> node_number (conn_source x) = fst y \<and> node_number (conn_target x) = fst (snd y)"
proof (cases it)
  case (AddCircuitIds g)
  with assms have "bind (u_iter_connections_next pop perm g)
      (wrap AddCircuitIds (u_add_circuit_ids pop)) w = (Inr (Some x, it''), w')"
    by simp
  from wrap_yield [OF this add_circuit_ids_numbers] AddCircuitIds show ?thesis
    by fastforce
next
  case (AddEdgeIds g)
  with assms have "bind (u_iter_connections_next pop perm g)
      (wrap AddEdgeIds (u_add_edge_ids pop)) w = (Inr (Some x, it''), w')"
    by simp
  from wrap_yield [OF this add_edge_ids_numbers] AddEdgeIds show ?thesis
    by fastforce
next
  case (OmitEdgeCount g)
  with assms have "bind (u_iter_connections_next pop perm g)
      (wrap OmitEdgeCount (u_omit_edge_count pop)) w = (Inr (Some x, it''), w')"
    by simp
  from wrap_yield [OF this omit_edge_count_numbers] OmitEdgeCount show ?thesis
    by fastforce
qed

lemma emit_numbers:
  assumes "y = emit d k r"
    and "node_number (conn_source x) = fst y" and "node_number (conn_target x) = fst (snd y)"
  shows "node_number (secondary_side d x) = fst r \<and> node_number (primary_side d x) = k"
  using assms by (simp add: emit_def secondary_side_def primary_side_def)

lemma unique_invariant_step:
  assumes inv: "unique_invariant it xs"
    and step: "connections_next pop perm it w = (Inr (Some x, it''), w')"
    and v: "valid_perm perm"
  shows "unique_invariant it'' (xs @ [x])"
proof -
  obtain y g' w1 where
    n: "u_iter_connections_next pop perm (generator_of it) w = (Inr (Some y, g'), w1)"
    and g': "generator_of it'' = g'"
    and ns: "node_number (conn_source x) = fst y" "node_number (conn_target x) = fst (snd y)"
    using connections_next_yield [OF step] by blast
  show ?thesis
  proof (cases "generator_of it")
    case (Created s t u sh)
    with inv have u: u and xs: "xs = []" by (simp_all add: unique_invariant_def)
    from created_yield [OF n [unfolded Created] v] obtain st pre k keys' r rest where
      s: "g' = Suspended st {} keys' k (fst r) rest" and d: "distinct (pre @ k # keys')"
      and su: "s_unique st = u" and y: "y = emit (s_direction st) k r"
      by blast
    note e = emit_numbers [OF y ns]
    from s g' u su xs d e show ?thesis by (simp add: unique_invariant_def)
  next
    case (Suspended st used keys key conn rows)
    let ?S = "\<lambda>x. node_number (secondary_side (s_direction st) x)"
    let ?P = "\<lambda>x. node_number (primary_side (s_direction st) x)"
    from inv Suspended have su: "s_unique st" and dS: "distinct (map ?S xs)"
      and dP: "distinct (map ?P xs)" and sS: "set (map ?S xs) \<subseteq> insert conn used"
      and pk: "set (map ?P xs) \<inter> set keys = {}" and dk: "distinct keys"
      by (simp_all add: unique_invariant_def)
    from suspended_yield [OF n [unfolded Suspended] su] obtain pre k keys' r rest where
      ks: "keys = pre @ k # keys'"
      and s: "g' = Suspended st (insert conn used) keys' k (fst r) rest"
      and y: "y = emit (s_direction st) k r" and fr: "fst r \<notin> insert conn used"
      by blast
    from emit_numbers [OF y ns] have e: "?S x = fst r" "?P x = k" by simp_all
    have 1: "distinct (map ?S (xs @ [x]))"
      using dS sS fr e by auto
    have 2: "distinct (map ?P (xs @ [x]))"
      using dP pk ks e by auto
    have 3: "set (map ?S (xs @ [x])) \<subseteq> insert (fst r) (insert conn used)"
      using sS e by auto
    have 4: "set (map ?P (xs @ [x])) \<inter> set keys' = {}"
      using pk dk ks e by auto
    have 5: "distinct keys'"
      using dk ks by simp
    from s g' su 1 2 3 4 5 show ?thesis by (simp add: unique_invariant_def)
  next
    case Finished
    with inv show ?thesis by (simp add: unique_invariant_def)
  qed
qed

lemma emitted_unique_invariant:
  assumes "emitted pop perm it xs it'" and "unique_invariant it []" and "valid_perm perm"
  shows "unique_invariant it' xs"
  using assms(1)
proof (induction rule: emitted.induct)
  case emitted_none
  show ?case by (rule assms(2))
next
  case (emitted_next xs it' w x it'' w')
  then show ?case using unique_invariant_step assms(3) by blast
qed

lemma distinct_map_number:
  "distinct (map (\<lambda>x. node_number (f x)) xs) \<Longrightarrow> distinct (map f xs)"
  by (induction xs) auto

lemma other_direction:
  "d \<noteq> d' \<Longrightarrow> secondary_side d = primary_side d' \<and> primary_side d = secondary_side d'"
  by (cases d; cases d') (auto simp: secondary_side_def primary_side_def fun_eq_iff)

lemma unique_invariant_distinct:
  assumes "unique_invariant it xs"
  shows "distinct (map (secondary_side d) xs) \<and> distinct (map (primary_side d) xs)"
proof (cases "generator_of it")
  case (Created s t u sh)
  with assms show ?thesis by (simp add: unique_invariant_def)
next
  case (Suspended st used keys key conn rows)
  with assms have "distinct (map (secondary_side (s_direction st)) xs)"
    and "distinct (map (primary_side (s_direction st)) xs)"
    by (simp_all add: unique_invariant_def distinct_map_number)
  then show ?thesis
    using other_direction [of d "s_direction st"] by (cases "d = s_direction st") auto
next
  case Finished
  with assms show ?thesis by (simp add: unique_invariant_def)
qed

text \<open>
  Claim C1. With \<open>unique_node_ids=True\<close>, whatever \<open>iter_connections\<close> has emitted after
  any number of advances, in any of the three annotation modes, with or without
  shuffling: no secondary-side node ID appears in two emitted connections, and no
  primary-side node ID does either, so each primary node contributes at most one
  connection. This holds for either direction \<open>d\<close>, hence for the one chosen.
\<close>

theorem iter_connections_unique:
  assumes "valid_perm perm"
    and "iter_connections pop source target True sh return_edge_ids return_edge_count w
           = (Inr it, w0)"
    and "emitted pop perm it xs it'"
  shows "distinct (map (secondary_side d) xs) \<and> distinct (map (primary_side d) xs)"
proof -
  from assms(2) have "\<exists>s t. generator_of it = Created s t True sh"
    by (auto simp: iter_connections_def u_iter_connections_def io_simps Let_def
        split: if_splits sum.splits)
  then have "unique_invariant it []"
    by (auto simp: unique_invariant_def)
  from emitted_unique_invariant [OF assms(3) this assms(1)]
  show ?thesis by (rule unique_invariant_distinct)
qed

lemma uint32_small:
  "astype_uint32 0 = 0" "astype_uint32 (Suc 0) = Suc 0" "astype_uint32 (Suc (Suc 0)) = 2"
  "astype_uint32 2 = 2" "astype_uint32 3 = 3"
  by (simp_all add: astype_uint32_def)

lemma example_rotate_small:
  "rotate (Suc 0) [0, Suc 0] = [Suc 0, 0]" "rotate 2 [0] = [0]" "rotate (Suc 0) [0] = [0]"
  by (simp_all add: numeral_2_eq_2)

lemmas example_iter_simps =
  u_iter_connections_next_def u_is_empty_def u_optimal_direction_def io_simps example_fields
  example_sources_def example_targets_def Selection_def np_unique_def
  get_connected_node_ids_def efferent_nodes_def afferent_nodes_def example_resolve
  select_edges_def flatten_def ensure_ids_array_def connected_rows_def uint32_small emit_def
  wrap_def u_add_circuit_ids_def Let_def shuffle_def permutation_def example_perm_def
  example_world_def example_rotate_small

lemma example_first_connection:
  "fst (connections_next example_population example_perm
     (AddCircuitIds (Created (Some [0, 3]) None True True)) example_world)
   = Inr (Some (CircuitNodeId ''default'' 3, CircuitNodeId ''default'' 1, EdgeCount 1),
          AddCircuitIds (Suspended
            \<lparr>s_direction = Source, s_secondary = None, s_unique = True,
             s_shuffle = True\<rparr> {} [0] 3 1 []))"
  by (simp add: example_iter_simps)

lemma example_second_connection:
  "fst (connections_next example_population example_perm
     (AddCircuitIds (Suspended
            \<lparr>s_direction = Source, s_secondary = None, s_unique = True,
             s_shuffle = True\<rparr> {} [0] 3 1 [])) example_world)
   = Inr (Some (CircuitNodeId ''default'' 0, CircuitNodeId ''default'' 2, EdgeCount 1),
          AddCircuitIds (Suspended
            \<lparr>s_direction = Source, s_secondary = None, s_unique = True,
             s_shuffle = True\<rparr> {1} [] 0 2 [(1, 2)]))"
  by (simp add: example_iter_simps)

lemma example_third_advance:
  "fst (connections_next example_population example_perm
     (AddCircuitIds (Suspended
            \<lparr>s_direction = Source, s_secondary = None, s_unique = True,
             s_shuffle = True\<rparr> {1} [] 0 2 [(1, 2)])) example_world)
   = Inr (None, AddCircuitIds Finished)"
  by (simp add: example_iter_simps)

theorem iter_connections_unique_witness:
  "valid_perm example_perm
   \<and> iter_connections example_population (Some (NodeIds [0, 3])) None True True False True
        example_world
       = (Inr (AddCircuitIds (Created (Some [0, 3]) None True True)), example_world)
   \<and> emitted example_population example_perm
        (AddCircuitIds (Created (Some [0, 3]) None True True))
        [(CircuitNodeId ''default'' 3, CircuitNodeId ''default'' 1, EdgeCount 1),
         (CircuitNodeId ''default'' 0, CircuitNodeId ''default'' 2, EdgeCount 1)]
        (AddCircuitIds (Suspended
            \<lparr>s_direction = Source, s_secondary = None, s_unique = True,
             s_shuffle = True\<rparr> {1} [] 0 2 [(1, 2)]))
   \<and> distinct (map (secondary_side Source)
        [(CircuitNodeId ''default'' 3, CircuitNodeId ''default'' 1, EdgeCount 1),
         (CircuitNodeId ''default'' 0, CircuitNodeId ''default'' 2, EdgeCount 1)])
   \<and> distinct (map (primary_side Source)
        [(CircuitNodeId ''default'' 3, CircuitNodeId ''default'' 1, EdgeCount 1),
         (CircuitNodeId ''default'' 0, CircuitNodeId ''default'' 2, EdgeCount 1)])"
proof -
  let ?it0 = "AddCircuitIds (Created (Some [0, 3]) None True True)"
  let ?st = "\<lparr>s_direction = Source, s_secondary = None, s_unique = True, s_shuffle = True\<rparr>"
  let ?it1 = "AddCircuitIds (Suspended ?st {} [0] 3 1 [])"
  let ?it2 = "AddCircuitIds (Suspended ?st {1} [] 0 2 [(1, 2)])"
  let ?x0 = "(CircuitNodeId ''default'' 3, CircuitNodeId ''default'' 1, EdgeCount 1)"
  let ?x1 = "(CircuitNodeId ''default'' 0, CircuitNodeId ''default'' 2, EdgeCount 1)"
  have h1: "valid_perm example_perm"
    by (rule valid_example_perm)
  have h2: "iter_connections example_population (Some (NodeIds [0, 3])) None True True False
              True example_world = (Inr ?it0, example_world)"
    by (simp add: iter_connections_def u_iter_connections_def io_simps example_fields
        example_resolve u_resolve_None)
  have s1: "connections_next example_population example_perm ?it0 example_world
              = (Inr (Some ?x0, ?it1),
                 snd (connections_next example_population example_perm ?it0 example_world))"
    using example_first_connection by (simp add: prod_eq_iff)
  have s2: "connections_next example_population example_perm ?it1 example_world
              = (Inr (Some ?x1, ?it2),
                 snd (connections_next example_population example_perm ?it1 example_world))"
    using example_second_connection by (simp add: prod_eq_iff)
  have "emitted example_population example_perm ?it0 ([] @ [?x0]) ?it1"
    using emitted_none s1 by (rule emitted_next)
  then have "emitted example_population example_perm ?it0 ([?x0] @ [?x1]) ?it2"
    using s2 by (simp only: append_Nil) (rule emitted_next)
  then have h3: "emitted example_population example_perm ?it0 [?x0, ?x1] ?it2"
    by simp
  from iter_connections_unique [OF h1 h2 h3, of Source]
  show ?thesis using h1 h2 h3 by simp
qed

end
